theory Spec2Isabelle
  imports Complex_Main "HOL-Library.Multiset"
begin

section \<open>Scheduler: pairings and resource groups\<close>

text \<open>
  The tournament runner (\<^verbatim>\<open>runner/src/game.ts\<close>, the last version of the file) pairs the
  entrants and packs the pairings into groups that are played concurrently.

  \<^verbatim>\<open>
  function permutations(array: string[]): [string, string][] {
    return array.reduce(
      (acc, v, i) =>
        acc.concat(array.slice(i + 1).map((w) => [v, w] as [string, string])),
      [] as [string, string][],
    );
  }
  \<close>

  \<open>Array.prototype.reduce\<close> hands the callback the accumulator, the element and its
  index; \<open>array.slice(i + 1)\<close> is \<open>drop (i + 1) array\<close>.
\<close>

type_synonym pair = "string \<times> string"

fun reduce_indexed :: "('b \<Rightarrow> 'a \<Rightarrow> nat \<Rightarrow> 'b) \<Rightarrow> 'b \<Rightarrow> nat \<Rightarrow> 'a list \<Rightarrow> 'b" where
  "reduce_indexed f acc i [] = acc"
| "reduce_indexed f acc i (v # vs) = reduce_indexed f (f acc v i) (Suc i) vs"

definition permutations :: "string list \<Rightarrow> pair list" where
  "permutations array =
     reduce_indexed (\<lambda>acc v i. acc @ map (\<lambda>w. (v, w)) (drop (i + 1) array)) [] 0 array"

text \<open>
  \<^verbatim>\<open>
  const pairsPerGroup = Math.floor((os.cpus().length - 2) / 4);
  const groups: [string, string][][] = [];
  for (const pair of pairs) {
    const availableGroup = groups.find((group) => {
      return (
        group.length < pairsPerGroup &&
        !group.some((p) => pair.includes(p[0]) || pair.includes(p[1]))
      );
    });
    if (!availableGroup) {
      groups.push([pair]);
    } else {
      availableGroup.push(pair);
    }
  }
  \<close>

  The number of cores is a natural number; the quotient is taken in the integers, where
  \<open>div\<close> rounds towards minus infinity as \<open>Math.floor\<close> does, so that fewer than two
  cores give a negative capacity as in the source.
\<close>

definition pairsPerGroup :: "nat \<Rightarrow> int" where
  "pairsPerGroup cpus = (int cpus - 2) div 4"

definition pair_includes :: "pair \<Rightarrow> string \<Rightarrow> bool" where
  "pair_includes pair x = (x = fst pair \<or> x = snd pair)"

definition available :: "int \<Rightarrow> pair \<Rightarrow> pair list \<Rightarrow> bool" where
  "available cap pair g =
     (int (length g) < cap \<and>
      \<not> list_ex (\<lambda>p. pair_includes pair (fst p) \<or> pair_includes pair (snd p)) g)"

text \<open>
  \<open>groups.find\<close> returns the first group that passes the test, and the pair is pushed
  onto that very group; with no such group a new one is pushed at the end.
\<close>

fun place :: "int \<Rightarrow> pair \<Rightarrow> pair list list \<Rightarrow> pair list list" where
  "place cap pair [] = [[pair]]"
| "place cap pair (g # gs) =
     (if available cap pair g then (g @ [pair]) # gs else g # place cap pair gs)"

definition makeGroups :: "int \<Rightarrow> pair list \<Rightarrow> pair list list" where
  "makeGroups cap pairs = foldl (\<lambda>groups pair. place cap pair groups) [] pairs"

text \<open>The number of pairings of a group in which an entrant takes part.\<close>

definition appearances :: "string \<Rightarrow> pair list \<Rightarrow> nat" where
  "appearances e ps = length (filter (\<lambda>p. pair_includes p e) ps)"

section \<open>The game: data model\<close>

text \<open>
  \<^verbatim>\<open>
  type Player = "white" | "black";
  type Players = Record<Player, string>;
  function colourToPlayer(colour: Color): Player {
    return colour === "w" ? "white" : "black";
  }
  \<close>
  \<open>Color\<close> is the side to move of chess.js, \<open>"w" | "b"\<close>.
\<close>

datatype Player = White | Black

datatype Color = ColorW | ColorB

record Players =
  white :: string
  black :: string

definition colourToPlayer :: "Color \<Rightarrow> Player" where
  "colourToPlayer colour = (if colour = ColorW then White else Black)"

text \<open>The lookup \<open>players[player]\<close>.\<close>

fun playerName :: "Players \<Rightarrow> Player \<Rightarrow> string" where
  "playerName ps White = white ps"
| "playerName ps Black = black ps"

text \<open>
  \<^verbatim>\<open>
  type InvalidResponseError = { type: "INVALID_RESPONSE"; message: string; status: number };
  type MoveError =
    | { type: "TIMEOUT" }
    | { type: "INVALID_MOVE"; move: string }
    | { type: "OUT_OF_MEMORY" };
  type MoveResponse = { move: Move | null; player: Player; errors: MoveError[] };
  \<close>
  Wall-clock measurements (\<open>durationMs\<close> of a move and of a game) are left out of the
  model: no statement below depends on them.
\<close>

record InvalidResponseError =
  message :: string
  status :: nat

datatype MoveError = TIMEOUT | INVALID_MOVE string | OUT_OF_MEMORY

record 'mv MoveResponse =
  move :: "'mv option"
  player :: Player
  errors :: "MoveError list"

text \<open>
  The outcome of a game, as the JSON document that is written to the result file: the
  fields \<open>winner\<close> and \<open>opponentErrors\<close> are present only in some variants of the union.
\<close>

datatype OutcomeType = WIN | DRAW

datatype Reason =
    STALEMATE | INSUFFICIENT_MATERIAL | FIFTY_MOVES | THREEFOLD_REPETITION | OTHER
  | CHECKMATE | OPPONENT_TIMEOUT | OPPONENT_EXCEEDED_MAX_ATTEMPTS

record 'mv GameOutcome =
  players :: Players
  pgn :: string
  moves :: "'mv list"
  type :: OutcomeType
  reason :: Reason
  winner :: "string option"
  opponentErrors :: "MoveError list option"

text \<open>
  The errors that \<open>gameLoop\<close> and \<open>playMatch\<close> return as \<open>Result.error (new Error ...)\<close>.
  The source builds a message text; the model keeps the parts the text is made of:
  \<^verbatim>\<open>Invalid response from ${players[currentPlayer]} as ${currentPlayer}: ${status} ${message}\<close>,
  \<^verbatim>\<open>unknown game state\<close> and
  \<^verbatim>\<open>Game between ${player1} and ${player2} failed: ${message}\<close>.
\<close>

datatype Error =
    InvalidResponseFrom string Player nat string
  | UnknownGameState
  | GameFailed string string Error

subsection \<open>The rules engine\<close>

text \<open>
  chess.js is an external library. Its rules are a parameter of the model: a record of the
  functions the runner calls, over a type \<open>'pos\<close> of positions and a type \<open>'mv\<close> of move
  objects. \<open>rules_move\<close> is \<open>chess.move (text, {strict: false})\<close>, which throws on an illegal
  move (\<open>None\<close>) and otherwise returns the move object and changes the position.

  The \<open>Chess\<close> object of the runner holds a position and the list of the moves made so far
  (\<open>chess.history ()\<close>); \<open>chess.move\<close> appends to it and \<open>chess.pgn ()\<close> renders it.
\<close>

record ('pos, 'mv) Engine =
  rules_loadPgn :: "string \<Rightarrow> 'pos \<times> 'mv list"
  rules_turn :: "'pos \<Rightarrow> Color"
  rules_fen :: "'pos \<Rightarrow> string"
  rules_move :: "'pos \<Rightarrow> string \<Rightarrow> ('pos \<times> 'mv) option"
  rules_pgn :: "'mv list \<Rightarrow> string"
  rules_isGameOver :: "'pos \<Rightarrow> bool"
  rules_isDraw :: "'pos \<Rightarrow> bool"
  rules_isStalemate :: "'pos \<Rightarrow> bool"
  rules_isInsufficientMaterial :: "'pos \<Rightarrow> bool"
  rules_isDrawByFiftyMoves :: "'pos \<Rightarrow> bool"
  rules_isThreefoldRepetition :: "'pos \<Rightarrow> bool"
  rules_isCheckmate :: "'pos \<Rightarrow> bool"

record ('pos, 'mv) Chess =
  board :: 'pos
  history :: "'mv list"

definition chess_loadPgn :: "('pos, 'mv) Engine \<Rightarrow> string \<Rightarrow> ('pos, 'mv) Chess" where
  "chess_loadPgn E text =
     \<lparr>board = fst (rules_loadPgn E text), history = snd (rules_loadPgn E text)\<rparr>"

definition chess_move ::
  "('pos, 'mv) Engine \<Rightarrow> ('pos, 'mv) Chess \<Rightarrow> string \<Rightarrow> (('pos, 'mv) Chess \<times> 'mv) option" where
  "chess_move E chess text =
     (case rules_move E (board chess) text of
        None \<Rightarrow> None
      | Some (b, m) \<Rightarrow> Some (\<lparr>board = b, history = history chess @ [m]\<rparr>, m))"

definition chess_pgn :: "('pos, 'mv) Engine \<Rightarrow> ('pos, 'mv) Chess \<Rightarrow> string" where
  "chess_pgn E chess = rules_pgn E (history chess)"

subsection \<open>The network\<close>

text \<open>
  A run of the program is determined by what its \<open>fetch\<close> calls return. The model takes
  these results as a list, one per call, in the order of the calls; a game that asks for
  more results than the list holds has no result in the model (\<open>None\<close>). A call either
  throws an error, of which the runner reads the name, or returns a response with a status
  and a body. Each request that is posted is recorded with its recipient (the bot whose
  port it goes to) and its JSON body.

  \<^verbatim>\<open>
  body: JSON.stringify({ fen, turn: player, failed_moves: failedMoves }),
  signal: AbortSignal.timeout(MOVE_TIMEOUT),
  \<close>
\<close>

datatype FetchResult = Rejected string | Response nat string

definition response_ok :: "nat \<Rightarrow> bool" where
  "response_ok st = (200 \<le> st \<and> st \<le> 299)"

record Request =
  req_to :: string
  req_fen :: string
  req_turn :: Player
  req_failed_moves :: "string list"

definition MAX_ATTEMPTS_PER_TURN :: nat where
  "MAX_ATTEMPTS_PER_TURN = 3"

definition MAX_TIMEOUTS_PER_GAME :: nat where
  "MAX_TIMEOUTS_PER_GAME = 15"

section \<open>One turn: makeMove\<close>

text \<open>
  \<^verbatim>\<open>
  let attempt = 0;
  const failedMoves: string[] = [];
  const errors: MoveError[] = [];
  while (attempt < MAX_ATTEMPTS_PER_TURN) {
    const responseResult = await Result.tryAsync(async () => await fetch(...));
    if (!responseResult.ok) {
      if (responseResult.error.name === "DOMException") {
        errors.push({ type: "TIMEOUT" });
      } else {
        errors.push({ type: "OUT_OF_MEMORY" });
      }
      attempt++;
      continue;
    }
    const response = responseResult.data;
    if (!response.ok) {
      return Result.error({ type: "INVALID_RESPONSE",
        message: await response.text(), status: response.status });
    }
    const move = await response.text();
    const moveResult = Result.try(() => chess.move(move, { strict: false }));
    if (!moveResult.ok) {
      errors.push({ type: "INVALID_MOVE", move });
      failedMoves.push(move);
      attempt++;
      continue;
    }
    return Result.ok({ player, move: { ...moveResult.data, durationMs } as Move, errors });
  }
  return Result.ok({ player, move: null, errors });
  \<close>

  What a turn leaves behind: its result, the \<open>Chess\<close> object (changed by a legal move),
  the fetch results not yet consumed and the requests posted so far.
\<close>

record ('pos, 'mv) Turn =
  turn_result :: "InvalidResponseError + 'mv MoveResponse"
  turn_chess :: "('pos, 'mv) Chess"
  turn_pending :: "FetchResult list"
  turn_sent :: "Request list"

fun makeMove_loop ::
  "('pos, 'mv) Engine \<Rightarrow> string \<Rightarrow> Player \<Rightarrow> string \<Rightarrow> ('pos, 'mv) Chess \<Rightarrow> nat \<Rightarrow>
   string list \<Rightarrow> MoveError list \<Rightarrow> FetchResult list \<Rightarrow> Request list \<Rightarrow>
   ('pos, 'mv) Turn option" where
  "makeMove_loop E to pl fenText chess attempt failedMoves errs pending sent =
     (if attempt < MAX_ATTEMPTS_PER_TURN then
        (case pending of
           [] \<Rightarrow> None
         | r # rest \<Rightarrow>
             let sent' = sent @ [\<lparr>req_to = to, req_fen = fenText, req_turn = pl,
                                  req_failed_moves = failedMoves\<rparr>]
             in (case r of
                   Rejected name \<Rightarrow>
                     makeMove_loop E to pl fenText chess (attempt + 1) failedMoves
                       (errs @ [if name = ''DOMException'' then TIMEOUT else OUT_OF_MEMORY])
                       rest sent'
                 | Response st body \<Rightarrow>
                     if \<not> response_ok st then
                       Some \<lparr>turn_result = Inl \<lparr>message = body, status = st\<rparr>,
                             turn_chess = chess, turn_pending = rest, turn_sent = sent'\<rparr>
                     else
                       (case chess_move E chess body of
                          None \<Rightarrow>
                            makeMove_loop E to pl fenText chess (attempt + 1)
                              (failedMoves @ [body]) (errs @ [INVALID_MOVE body]) rest sent'
                        | Some (chess', m) \<Rightarrow>
                            Some \<lparr>turn_result =
                                    Inr \<lparr>move = Some m, player = pl, errors = errs\<rparr>,
                                  turn_chess = chess', turn_pending = rest,
                                  turn_sent = sent'\<rparr>)))
      else
        Some \<lparr>turn_result = Inr \<lparr>move = None, player = pl, errors = errs\<rparr>,
              turn_chess = chess, turn_pending = pending, turn_sent = sent\<rparr>)"

declare makeMove_loop.simps [simp del]

definition makeMove ::
  "('pos, 'mv) Engine \<Rightarrow> ('pos, 'mv) Chess \<Rightarrow> Players \<Rightarrow> FetchResult list \<Rightarrow> Request list \<Rightarrow>
   ('pos, 'mv) Turn option" where
  "makeMove E chess ps pending sent =
     (let pl = colourToPlayer (rules_turn E (board chess));
          fenText = rules_fen E (board chess)
      in makeMove_loop E (playerName ps pl) pl fenText chess 0 [] [] pending sent)"

text \<open>A turn that returns a move has consumed at least one fetch result.\<close>

lemma makeMove_loop_consumes:
  "makeMove_loop E to pl fenText chess attempt failedMoves errs pending sent = Some t \<Longrightarrow>
   turn_result t = Inr resp \<Longrightarrow> move resp = Some m \<Longrightarrow>
   length (turn_pending t) < length pending"
proof (induction E to pl fenText chess attempt failedMoves errs pending sent
    rule: makeMove_loop.induct)
  case (1 E to pl fenText chess attempt failedMoves errs pending sent)
  show ?case
  proof (cases "attempt < MAX_ATTEMPTS_PER_TURN")
    case False
    then show ?thesis
      using "1.prems" by (subst (asm) makeMove_loop.simps) auto
  next
    case att: True
    show ?thesis
    proof (cases pending)
      case Nil
      then show ?thesis
        using "1.prems" att by (subst (asm) makeMove_loop.simps) simp
    next
      case (Cons r rest)
      show ?thesis
      proof (cases r)
        case (Rejected name)
        then have "length (turn_pending t) < length rest"
          using "1.IH"(1) [OF att Cons refl Rejected _ "1.prems"(2,3)] "1.prems"(1) att Cons
          by (subst (asm) makeMove_loop.simps) simp
        then show ?thesis using Cons by simp
      next
        case (Response st body)
        show ?thesis
        proof (cases "response_ok st")
          case False
          then show ?thesis
            using "1.prems" att Cons Response
            by (subst (asm) makeMove_loop.simps) auto
        next
          case ok: True
          show ?thesis
          proof (cases "chess_move E chess body")
            case None
            then have "length (turn_pending t) < length rest"
              using "1.IH"(2) [OF att Cons refl Response _ None _ "1.prems"(2,3)]
                "1.prems"(1) att Cons Response ok
              by (subst (asm) makeMove_loop.simps) simp
            then show ?thesis using Cons by simp
          next
            case (Some cm)
            then show ?thesis
              using "1.prems" att Cons Response ok
              by (subst (asm) makeMove_loop.simps) (auto split: prod.splits)
          qed
        qed
      qed
    qed
  qed
qed

section \<open>One game: gameLoop\<close>

text \<open>
  After the loop, the outcome is read from the rules engine:
  \<^verbatim>\<open>
  if (chess.isDraw()) {
    if (chess.isStalemate()) { return Result.ok({ type: "DRAW", reason: "STALEMATE", ... }); }
    if (chess.isInsufficientMaterial()) { ... "INSUFFICIENT_MATERIAL" ... }
    if (chess.isDrawByFiftyMoves()) { ... "FIFTY_MOVES" ... }
    if (chess.isThreefoldRepetition()) { ... "THREEFOLD_REPETITION" ... }
    return Result.ok({ type: "DRAW", reason: "OTHER", ... });
  }
  if (chess.isCheckmate()) {
    return Result.ok({ type: "WIN", winner: players[currentPlayer], reason: "CHECKMATE", ... });
  }
  return Result.error(new Error("unknown game state"));
  \<close>
\<close>

definition drawOutcome :: "Players \<Rightarrow> string \<Rightarrow> 'mv list \<Rightarrow> Reason \<Rightarrow> 'mv GameOutcome" where
  "drawOutcome ps finalPgn mvs r =
     \<lparr>players = ps, pgn = finalPgn, moves = mvs, type = DRAW, reason = r,
      winner = None, opponentErrors = None\<rparr>"

definition gameOver_result ::
  "('pos, 'mv) Engine \<Rightarrow> Players \<Rightarrow> ('pos, 'mv) Chess \<Rightarrow> Player \<Rightarrow> 'mv list \<Rightarrow>
   Error + 'mv GameOutcome" where
  "gameOver_result E ps chess currentPlayer mvs =
     (let finalPgn = chess_pgn E chess; b = board chess
      in if rules_isDraw E b then
           (if rules_isStalemate E b then Inr (drawOutcome ps finalPgn mvs STALEMATE)
            else if rules_isInsufficientMaterial E b then
              Inr (drawOutcome ps finalPgn mvs INSUFFICIENT_MATERIAL)
            else if rules_isDrawByFiftyMoves E b then
              Inr (drawOutcome ps finalPgn mvs FIFTY_MOVES)
            else if rules_isThreefoldRepetition E b then
              Inr (drawOutcome ps finalPgn mvs THREEFOLD_REPETITION)
            else Inr (drawOutcome ps finalPgn mvs OTHER))
         else if rules_isCheckmate E b then
           Inr \<lparr>players = ps, pgn = finalPgn, moves = mvs, type = WIN, reason = CHECKMATE,
                winner = Some (playerName ps currentPlayer), opponentErrors = None\<rparr>
         else Inl UnknownGameState)"

text \<open>
  \<^verbatim>\<open>
  while (!chess.isGameOver()) {
    currentPlayer = colourToPlayer(chess.turn());
    const otherPlayer = currentPlayer === "white" ? "black" : "white";
    const moveResult = await makeMove(chess, players);
    if (!moveResult.ok) {
      return Result.error(new Error(`Invalid response from ...`));
    }
    const { move, errors } = moveResult.data;
    if (!move) {
      return Result.ok({ type: "WIN", winner: players[otherPlayer],
        reason: "OPPONENT_EXCEEDED_MAX_ATTEMPTS", pgn: chess.pgn(), moves,
        opponentErrors: errors, players, ... });
    }
    const timeoutsOccurred = errors.filter((err) => err.type === "TIMEOUT");
    timeouts[currentPlayer] += timeoutsOccurred.length;
    if (timeouts[currentPlayer] >= MAX_TIMEOUTS_PER_GAME) {
      return Result.ok({ type: "WIN", pgn: chess.pgn(), winner: players[otherPlayer],
        reason: "OPPONENT_TIMEOUT", moves, opponentErrors: errors, players, ... });
    }
    moves.push(move);
  }
  \<close>

  What a game leaves behind: its result and the final values of the local variables
  \<open>chess\<close> and \<open>timeouts\<close>, the fetch results not consumed and the requests posted. The
  field \<open>game_turns\<close> is a ghost variable, absent from the source: the responses that
  \<open>makeMove\<close> returned, turn by turn; statements about the turns of a game read it.
\<close>

record ('pos, 'mv) Game =
  game_result :: "Error + 'mv GameOutcome"
  game_chess :: "('pos, 'mv) Chess"
  game_timeouts :: "Player \<Rightarrow> nat"
  game_turns :: "'mv MoveResponse list"
  game_pending :: "FetchResult list"
  game_sent :: "Request list"

definition forfeitOutcome ::
  "Players \<Rightarrow> string \<Rightarrow> 'mv list \<Rightarrow> Reason \<Rightarrow> string \<Rightarrow> MoveError list \<Rightarrow> 'mv GameOutcome" where
  "forfeitOutcome ps pgnText mvs r w errs =
     \<lparr>players = ps, pgn = pgnText, moves = mvs, type = WIN, reason = r,
      winner = Some w, opponentErrors = Some errs\<rparr>"

function gameLoop_while ::
  "('pos, 'mv) Engine \<Rightarrow> Players \<Rightarrow> ('pos, 'mv) Chess \<Rightarrow> Player \<Rightarrow> (Player \<Rightarrow> nat) \<Rightarrow>
   'mv list \<Rightarrow> 'mv MoveResponse list \<Rightarrow> FetchResult list \<Rightarrow> Request list \<Rightarrow>
   ('pos, 'mv) Game option" where
  "gameLoop_while E ps chess currentPlayer timeouts mvs turns pending sent =
     (if \<not> rules_isGameOver E (board chess) then
        (let cur = colourToPlayer (rules_turn E (board chess));
             otherPlayer = (if cur = White then Black else White)
         in case makeMove E chess ps pending sent of
              None \<Rightarrow> None
            | Some t \<Rightarrow>
                (case turn_result t of
                   Inl err \<Rightarrow>
                     Some \<lparr>game_result =
                             Inl (InvalidResponseFrom (playerName ps cur) cur
                                    (status err) (message err)),
                           game_chess = turn_chess t, game_timeouts = timeouts,
                           game_turns = turns, game_pending = turn_pending t,
                           game_sent = turn_sent t\<rparr>
                 | Inr resp \<Rightarrow>
                     (case move resp of
                        None \<Rightarrow>
                          Some \<lparr>game_result =
                                  Inr (forfeitOutcome ps (chess_pgn E (turn_chess t)) mvs
                                         OPPONENT_EXCEEDED_MAX_ATTEMPTS
                                         (playerName ps otherPlayer) (errors resp)),
                                game_chess = turn_chess t, game_timeouts = timeouts,
                                game_turns = turns @ [resp], game_pending = turn_pending t,
                                game_sent = turn_sent t\<rparr>
                      | Some m \<Rightarrow>
                          (let timeouts' = timeouts
                                 (cur := timeouts cur +
                                    length (filter (\<lambda>e. e = TIMEOUT) (errors resp)))
                           in if MAX_TIMEOUTS_PER_GAME \<le> timeouts' cur then
                                Some \<lparr>game_result =
                                        Inr (forfeitOutcome ps (chess_pgn E (turn_chess t)) mvs
                                               OPPONENT_TIMEOUT
                                               (playerName ps otherPlayer) (errors resp)),
                                      game_chess = turn_chess t, game_timeouts = timeouts',
                                      game_turns = turns @ [resp],
                                      game_pending = turn_pending t,
                                      game_sent = turn_sent t\<rparr>
                              else
                                gameLoop_while E ps (turn_chess t) cur timeouts' (mvs @ [m])
                                  (turns @ [resp]) (turn_pending t) (turn_sent t)))))
      else
        Some \<lparr>game_result = gameOver_result E ps chess currentPlayer mvs,
              game_chess = chess, game_timeouts = timeouts, game_turns = turns,
              game_pending = pending, game_sent = sent\<rparr>)"
  by pat_completeness auto
termination gameLoop_while
proof (relation "measure (\<lambda>(E, ps, chess, currentPlayer, timeouts, mvs, turns, pending, sent).
    length pending)")
  show "wf (measure (\<lambda>(E :: ('pos, 'mv) Engine, ps :: Players, chess :: ('pos, 'mv) Chess,
      currentPlayer :: Player, timeouts :: Player \<Rightarrow> nat, mvs :: 'mv list,
      turns :: 'mv MoveResponse list, pending :: FetchResult list, sent :: Request list).
      length pending))"
    by simp
next
  fix E :: "('pos, 'mv) Engine" and ps chess and currentPlayer :: Player
    and timeouts :: "Player \<Rightarrow> nat" and mvs :: "'mv list" and turns :: "'mv MoveResponse list"
    and pending sent cur otherPlayer
    and t :: "('pos, 'mv) Turn" and resp :: "'mv MoveResponse" and m timeouts'
  assume "makeMove E chess ps pending sent = Some t" "turn_result t = Inr resp"
    "move resp = Some m"
  then have "length (turn_pending t) < length pending"
    unfolding makeMove_def Let_def by (rule makeMove_loop_consumes)
  then show "((E, ps, turn_chess t, cur, timeouts', mvs @ [m], turns @ [resp], turn_pending t,
        turn_sent t),
       E, ps, chess, currentPlayer, timeouts, mvs, turns, pending, sent)
      \<in> measure (\<lambda>(E, ps, chess, currentPlayer, timeouts, mvs, turns, pending, sent).
          length pending)"
    by simp
qed

declare gameLoop_while.simps [simp del]

text \<open>
  \<^verbatim>\<open>
  const pgn = await Bun.file(pgnPath).text();
  const chess = new Chess();
  chess.loadPgn(pgn, { strict: false });
  let currentPlayer: Player = "white";
  const timeouts: Record<Player, number> = { white: 0, black: 0 };
  const moves: Move[] = [];
  \<close>
\<close>

definition gameLoop_run ::
  "('pos, 'mv) Engine \<Rightarrow> Players \<Rightarrow> string \<Rightarrow> FetchResult list \<Rightarrow> Request list \<Rightarrow>
   ('pos, 'mv) Game option" where
  "gameLoop_run E ps pgnText pending sent =
     gameLoop_while E ps (chess_loadPgn E pgnText) White (\<lambda>p. 0) [] [] pending sent"

section \<open>Result files, sandboxes and matches\<close>

text \<open>
  The world outside a game: the opening files (\<open>Bun.file (pgnPath).text ()\<close>), the result
  files by path, holding the outcome that their JSON text encodes, the \<open>docker\<close> commands
  issued so far, and the network. The model covers the runs in which reading a file and
  running a \<open>docker\<close> command succeed.
\<close>

datatype DockerEvent = DockerRun string string | DockerStop string

record 'mv World =
  pgnFiles :: "string \<Rightarrow> string"
  resultFiles :: "string \<rightharpoonup> 'mv GameOutcome"
  dockerLog :: "DockerEvent list"
  net_pending :: "FetchResult list"
  net_sent :: "Request list"

text \<open>
  \<^verbatim>\<open>
  function dockerImage(name: string) { return `chess-bot-2025:${name}`; }
  function dockerContainerName(name: string, player: Player) { return `${name}-${player}`; }
  async function dockerStart(name, player) {
    await Bun.$`docker run -d ... --rm --name ${containerName} -p ...:8000 ${dockerImage(name)}`
  }
  async function dockerStop(name, player) { await Bun.$`docker stop ${containerName}` }
  async function dockerStartAll(players: Players) {
    await Promise.all(Object.entries(players).map(async ([player, name]) => {
      await dockerStart(name, player as Player); }));
  }
  \<close>
  \<open>Object.entries\<close> lists \<open>white\<close> before \<open>black\<close>, and the two commands are issued in
  that order.
\<close>

definition dockerImage :: "string \<Rightarrow> string" where
  "dockerImage name = ''chess-bot-2025:'' @ name"

definition dockerContainerName :: "string \<Rightarrow> Player \<Rightarrow> string" where
  "dockerContainerName name pl = name @ ''-'' @ (case pl of White \<Rightarrow> ''white'' | Black \<Rightarrow> ''black'')"

definition dockerStart :: "string \<Rightarrow> Player \<Rightarrow> 'mv World \<Rightarrow> 'mv World" where
  "dockerStart name pl w =
     w\<lparr>dockerLog := dockerLog w @ [DockerRun (dockerContainerName name pl) (dockerImage name)]\<rparr>"

definition dockerStop :: "string \<Rightarrow> Player \<Rightarrow> 'mv World \<Rightarrow> 'mv World" where
  "dockerStop name pl w =
     w\<lparr>dockerLog := dockerLog w @ [DockerStop (dockerContainerName name pl)]\<rparr>"

definition dockerStartAll :: "Players \<Rightarrow> 'mv World \<Rightarrow> 'mv World" where
  "dockerStartAll ps w = dockerStart (black ps) Black (dockerStart (white ps) White w)"

definition dockerStopAll :: "Players \<Rightarrow> 'mv World \<Rightarrow> 'mv World" where
  "dockerStopAll ps w = dockerStop (black ps) Black (dockerStop (white ps) White w)"

text \<open>The containers that a sequence of commands leaves running.\<close>

fun running :: "DockerEvent list \<Rightarrow> string list \<Rightarrow> string list" where
  "running [] up = up"
| "running (DockerRun c img # es) up = running es (List.insert c up)"
| "running (DockerStop c # es) up = running es (removeAll c up)"

text \<open>
  \<^verbatim>\<open>
  function resultFileName(players: Players, pgnPath: string) {
    const pgnNumber = pgnPath.split(path.sep).pop()?.split("-")[0] as string;
    return `${players.white}-${players.black}-${pgnNumber}.json`;
  }
  \<close>
  The last segment of a path is what follows its last separator, and the first part of
  that segment is what precedes its first hyphen. \<open>path.join\<close> is modelled on paths that
  need no normalisation.
\<close>

definition pgnNumber :: "string \<Rightarrow> string" where
  "pgnNumber pgnPath =
     takeWhile (\<lambda>c. c \<noteq> CHR ''-'') (rev (takeWhile (\<lambda>c. c \<noteq> CHR ''/'') (rev pgnPath)))"

definition resultFileName :: "Players \<Rightarrow> string \<Rightarrow> string" where
  "resultFileName ps pgnPath = white ps @ ''-'' @ black ps @ ''-'' @ pgnNumber pgnPath @ ''.json''"

definition path_join :: "string \<Rightarrow> string \<Rightarrow> string" where
  "path_join dir file = dir @ ''/'' @ file"

definition saveResult :: "Players \<Rightarrow> 'mv GameOutcome \<Rightarrow> string \<Rightarrow> string \<Rightarrow> 'mv World \<Rightarrow> 'mv World" where
  "saveResult ps outcome pgnPath saveDir w =
     w\<lparr>resultFiles := (resultFiles w)(path_join saveDir (resultFileName ps pgnPath) \<mapsto> outcome)\<rparr>"

text \<open>\<open>gameLoop\<close> in the world: it reads the opening and talks to the network.\<close>

definition gameLoop ::
  "('pos, 'mv) Engine \<Rightarrow> Players \<Rightarrow> string \<Rightarrow> 'mv World \<Rightarrow> ((Error + 'mv GameOutcome) \<times> 'mv World) option" where
  "gameLoop E ps pgnPath w =
     (case gameLoop_run E ps (pgnFiles w pgnPath) (net_pending w) (net_sent w) of
        None \<Rightarrow> None
      | Some g \<Rightarrow>
          Some (game_result g, w\<lparr>net_pending := game_pending g, net_sent := game_sent g\<rparr>))"

text \<open>
  \<^verbatim>\<open>
  async function playAndSaveGame(players, pgnPath, saveDir): Promise<Result<GameOutcome>> {
    const fileName = resultFileName(players, pgnPath);
    const resultsFile = Bun.file(path.join(saveDir, fileName));
    if (await resultsFile.exists()) {
      const existingResults = (await resultsFile.json()) as GameOutcome;
      return Result.ok(existingResults);
    }
    await dockerStartAll(players);
    const gameResult = await gameLoop(players, pgnPath);
    if (!gameResult.ok) {
      return gameResult;
    }
    await saveResult(players, gameResult.data, pgnPath, saveDir);
    await dockerStopAll(players);
    return Result.ok(gameResult.data);
  }
  \<close>
\<close>

definition playAndSaveGame ::
  "('pos, 'mv) Engine \<Rightarrow> Players \<Rightarrow> string \<Rightarrow> string \<Rightarrow> 'mv World \<Rightarrow>
   ((Error + 'mv GameOutcome) \<times> 'mv World) option" where
  "playAndSaveGame E ps pgnPath saveDir w =
     (let fileName = resultFileName ps pgnPath
      in case resultFiles w (path_join saveDir fileName) of
           Some existingResults \<Rightarrow> Some (Inr existingResults, w)
         | None \<Rightarrow>
             (case gameLoop E ps pgnPath (dockerStartAll ps w) of
                None \<Rightarrow> None
              | Some (gameResult, w') \<Rightarrow>
                  (case gameResult of
                     Inl err \<Rightarrow> Some (Inl err, w')
                   | Inr data \<Rightarrow>
                       Some (Inr data,
                             dockerStopAll ps (saveResult ps data pgnPath saveDir w')))))"

text \<open>
  \<^verbatim>\<open>
  for (const pgnPath of pgnPaths) {
    const game1Players = { white: player1, black: player2 };
    const game1Result = await playAndSaveGame(game1Players, pgnPath, saveDir);
    if (!game1Result.ok) {
      return Result.error(new Error(`Game between ${player1} and ${player2} failed: ...`));
    }
    const game2Players = { white: player2, black: player1 };
    const game2Result = await playAndSaveGame(game2Players, pgnPath, saveDir);
    if (!game2Result.ok) {
      return Result.error(new Error(`Game between ${player2} and ${player1} failed: ...`));
    }
  }
  return Result.ok(null);
  \<close>
  The model returns with the outcomes of the games played, which the source prints.
\<close>

fun playMatch ::
  "('pos, 'mv) Engine \<Rightarrow> string \<Rightarrow> string \<Rightarrow> string list \<Rightarrow> string \<Rightarrow> 'mv World \<Rightarrow>
   ((Error + 'mv GameOutcome list) \<times> 'mv World) option" where
  "playMatch E player1 player2 [] saveDir w = Some (Inr [], w)"
| "playMatch E player1 player2 (pgnPath # pgnPaths) saveDir w =
     (case playAndSaveGame E \<lparr>white = player1, black = player2\<rparr> pgnPath saveDir w of
        None \<Rightarrow> None
      | Some (Inl err, w1) \<Rightarrow> Some (Inl (GameFailed player1 player2 err), w1)
      | Some (Inr out1, w1) \<Rightarrow>
          (case playAndSaveGame E \<lparr>white = player2, black = player1\<rparr> pgnPath saveDir w1 of
             None \<Rightarrow> None
           | Some (Inl err, w2) \<Rightarrow> Some (Inl (GameFailed player2 player1 err), w2)
           | Some (Inr out2, w2) \<Rightarrow>
               (case playMatch E player1 player2 pgnPaths saveDir w2 of
                  None \<Rightarrow> None
                | Some (Inl err, w3) \<Rightarrow> Some (Inl err, w3)
                | Some (Inr outs, w3) \<Rightarrow> Some (Inr (out1 # out2 # outs), w3))))"

section \<open>A group of matches\<close>

text \<open>
  \<^verbatim>\<open>
  for (const group of groups) {
    await Promise.all(
      group.map(async ([player1, player2]) => {
        const matchResult = await playMatch(player1, player2, startingPositions, ...);
        if (!matchResult.ok) {
          console.error(matchResult.error.message);
          process.exit(1);
        }
        console.log(`FINISHED MATCH BETWEEN ${player1} AND ${player2}`);
      }),
    );
  }
  \<close>

  The matches of a group run concurrently, and each callback goes on when its own match
  has settled. In which order the matches settle is decided by the bots and the network:
  the model takes that order as given, a list of the matches with their results, first
  settled first. \<open>process.exit\<close> ends the process on the spot: no callback runs after it.
\<close>

record Process =
  stderr :: "Error list"
  exitCode :: "nat option"
  finishedMatches :: "pair list"

definition freshProcess :: Process where
  "freshProcess = \<lparr>stderr = [], exitCode = None, finishedMatches = []\<rparr>"

definition matchSettled :: "Process \<Rightarrow> pair \<times> (Error + unit) \<Rightarrow> Process" where
  "matchSettled P s =
     (case exitCode P of
        Some code \<Rightarrow> P
      | None \<Rightarrow>
          (case snd s of
             Inl err \<Rightarrow> P\<lparr>stderr := stderr P @ [err], exitCode := Some 1\<rparr>
           | Inr u \<Rightarrow> P\<lparr>finishedMatches := finishedMatches P @ [fst s]\<rparr>))"

definition runGroup :: "Process \<Rightarrow> (pair \<times> (Error + unit)) list \<Rightarrow> Process" where
  "runGroup P settled = foldl matchSettled P settled"

text \<open>The fatal errors among the results of a group, in the order of settlement.\<close>

definition fatalErrors :: "(pair \<times> (Error + unit)) list \<Rightarrow> Error list" where
  "fatalErrors settled = concat (map (\<lambda>s. case snd s of Inl err \<Rightarrow> [err] | Inr u \<Rightarrow> []) settled)"

section \<open>Standings: calculatePoints\<close>

text \<open>
  \<^verbatim>\<open>
  export const POINTS_PER_WIN = 1;
  export const POINTS_PER_DRAW = 0.5;
  export const POINTS_PER_LOSS = 0;
  type PointTotals = { bot: string; wins: number; draws: number; losses: number; points: number };
  \<close>
  The counts are natural numbers and the points are rationals: the sums of halves that the
  source computes in floating point are exact.
\<close>

definition POINTS_PER_WIN :: rat where
  "POINTS_PER_WIN = 1"

definition POINTS_PER_DRAW :: rat where
  "POINTS_PER_DRAW = 1 / 2"

definition POINTS_PER_LOSS :: rat where
  "POINTS_PER_LOSS = 0"

record PointTotals =
  bot :: string
  wins :: nat
  draws :: nat
  losses :: nat
  points :: rat

text \<open>
  \<open>totals\<close> is a plain object (\<^verbatim>\<open>const totals: Record<string, PointTotals> = {}\<close>) used as
  a dictionary from bot names to rows. Reading \<open>totals[name]\<close> gives the row filed under
  \<open>name\<close> when the object has one of its own, and otherwise what every object inherits under
  that key: a function or an object for each key of \<open>objectPrototypeKeys\<close>, and
  \<open>undefined\<close> for any other key. The model keeps the own properties of \<open>totals\<close> as an
  association list, in the order in which they were added.
\<close>

type_synonym Totals = "(string \<times> PointTotals) list"

definition objectPrototypeKeys :: "string list" where
  "objectPrototypeKeys =
     [''constructor'', ''__defineGetter__'', ''__defineSetter__'', ''hasOwnProperty'',
      ''__lookupGetter__'', ''__lookupSetter__'', ''isPrototypeOf'', ''propertyIsEnumerable'',
      ''toString'', ''valueOf'', ''__proto__'', ''toLocaleString'']"

definition inheritedKey :: "string \<Rightarrow> bool" where
  "inheritedKey name = (name \<in> set objectPrototypeKeys)"

text \<open>
  \<^verbatim>\<open>
  if (!totals[white]) {
    totals[white] = { bot: white, wins: 0, draws: 0, losses: 0, points: 0 };
  }
  \<close>
  A row and an inherited function or object are all truthy, so a row is made only for a
  name that has no row yet and is not an inherited key.
\<close>

definition newTotals :: "string \<Rightarrow> PointTotals" where
  "newTotals name = \<lparr>bot = name, wins = 0, draws = 0, losses = 0, points = 0\<rparr>"

definition ensureTotals :: "string \<Rightarrow> Totals \<Rightarrow> Totals" where
  "ensureTotals name totals =
     (if map_of totals name = None \<and> \<not> inheritedKey name
      then totals @ [(name, newTotals name)]
      else totals)"

text \<open>
  \<open>totals[name].wins += 1\<close> updates the row filed under \<open>name\<close>. For a name without a row
  of its own \<open>totals[name]\<close> is the inherited function or object, the update lands on that
  (its \<open>wins\<close> becomes \<open>NaN\<close>, which is falsy and no row), and the own properties of
  \<open>totals\<close> stay as they are.
\<close>

definition updateTotals :: "string \<Rightarrow> (PointTotals \<Rightarrow> PointTotals) \<Rightarrow> Totals \<Rightarrow> Totals" where
  "updateTotals name f totals = map (\<lambda>kt. if fst kt = name then (fst kt, f (snd kt)) else kt) totals"

text \<open>
  \<^verbatim>\<open>
  if (outcome.type === "WIN") {
    if (outcome.winner === white) {
      totals[white].wins += 1;   totals[white].points += POINTS_PER_WIN;
      totals[black].losses += 1; totals[black].points += POINTS_PER_LOSS;
    } else {
      totals[black].wins += 1;   totals[black].points += POINTS_PER_WIN;
      totals[white].losses += 1; totals[white].points += POINTS_PER_LOSS;
    }
  } else {
    totals[white].draws += 1; totals[white].points += POINTS_PER_DRAW;
    totals[black].draws += 1; totals[black].points += POINTS_PER_DRAW;
  }
  \<close>
\<close>

definition addWin :: "PointTotals \<Rightarrow> PointTotals" where
  "addWin t = t\<lparr>wins := wins t + 1, points := points t + POINTS_PER_WIN\<rparr>"

definition addLoss :: "PointTotals \<Rightarrow> PointTotals" where
  "addLoss t = t\<lparr>losses := losses t + 1, points := points t + POINTS_PER_LOSS\<rparr>"

definition addDraw :: "PointTotals \<Rightarrow> PointTotals" where
  "addDraw t = t\<lparr>draws := draws t + 1, points := points t + POINTS_PER_DRAW\<rparr>"

definition tally :: "Totals \<Rightarrow> 'mv GameOutcome \<Rightarrow> Totals" where
  "tally totals outcome =
     (let w = white (players outcome);
          b = black (players outcome);
          totals' = ensureTotals b (ensureTotals w totals)
      in if type outcome = WIN then
           (if winner outcome = Some w then
              updateTotals b addLoss (updateTotals w addWin totals')
            else
              updateTotals w addLoss (updateTotals b addWin totals'))
         else
           updateTotals b addDraw (updateTotals w addDraw totals'))"

text \<open>
  \<^verbatim>\<open>return Object.values(totals).toSorted((a, b) => b.points - a.points);\<close>
  \<open>Object.values\<close> lists the values of the own properties: first those whose key is an
  array index (the decimal text, without leading zeros, of a number below \<open>2^32 - 1\<close>) by
  rising index, then the others in the order in which they were added. \<open>toSorted\<close> is a
  stable sort, here by falling points.
\<close>

definition indexOf :: "string \<Rightarrow> nat" where
  "indexOf name = foldl (\<lambda>n c. 10 * n + (of_char c - 48)) 0 name"

definition isArrayIndex :: "string \<Rightarrow> bool" where
  "isArrayIndex name =
     (case name of
        [] \<Rightarrow> False
      | c # cs \<Rightarrow>
          list_all (\<lambda>d. 48 \<le> (of_char d :: nat) \<and> (of_char d :: nat) \<le> 57) name \<and>
          (if c = CHR ''0'' then cs = [] else True) \<and>
          indexOf name < 4294967295)"

definition objectValues :: "Totals \<Rightarrow> PointTotals list" where
  "objectValues totals =
     map snd
       (sort_key (\<lambda>kt. indexOf (fst kt)) (filter (\<lambda>kt. isArrayIndex (fst kt)) totals) @
        filter (\<lambda>kt. \<not> isArrayIndex (fst kt)) totals)"

definition calculatePoints :: "'mv GameOutcome list \<Rightarrow> PointTotals list" where
  "calculatePoints outcomes =
     sort_key (\<lambda>t. - points t) (objectValues (foldl tally [] outcomes))"

text \<open>In how many outcomes a bot appears.\<close>

definition gamesWith :: "string \<Rightarrow> 'mv GameOutcome list \<Rightarrow> nat" where
  "gamesWith b outcomes =
     length (filter (\<lambda>out. white (players out) = b \<or> black (players out) = b) outcomes)"

section \<open>Vocabulary of the statements\<close>

text \<open>
  Vocabulary for statements about a turn. An attempt fails when the call throws or when
  the body of a successful response is not a legal move; the turn-error it records; the
  illegal moves among a list of fetch results; and the first \<open>n\<close> requests of a turn, each
  carrying the illegal moves of the attempts before it.
\<close>

definition attemptFails :: "('pos, 'mv) Engine \<Rightarrow> ('pos, 'mv) Chess \<Rightarrow> FetchResult \<Rightarrow> bool" where
  "attemptFails E chess r =
     (case r of
        Rejected name \<Rightarrow> True
      | Response st body \<Rightarrow> response_ok st \<and> chess_move E chess body = None)"

definition attemptError :: "FetchResult \<Rightarrow> MoveError" where
  "attemptError r =
     (case r of
        Rejected name \<Rightarrow> (if name = ''DOMException'' then TIMEOUT else OUT_OF_MEMORY)
      | Response st body \<Rightarrow> INVALID_MOVE body)"

definition illegalMoves :: "('pos, 'mv) Engine \<Rightarrow> ('pos, 'mv) Chess \<Rightarrow> FetchResult list \<Rightarrow> string list" where
  "illegalMoves E chess rs =
     concat (map (\<lambda>r. case r of
                         Rejected name \<Rightarrow> []
                       | Response st body \<Rightarrow>
                           if response_ok st \<and> chess_move E chess body = None then [body]
                           else []) rs)"

definition turnRequests ::
  "('pos, 'mv) Engine \<Rightarrow> ('pos, 'mv) Chess \<Rightarrow> Players \<Rightarrow> FetchResult list \<Rightarrow> nat \<Rightarrow> Request list" where
  "turnRequests E chess ps pending n =
     map (\<lambda>k. \<lparr>req_to = playerName ps (colourToPlayer (rules_turn E (board chess))),
               req_fen = rules_fen E (board chess),
               req_turn = colourToPlayer (rules_turn E (board chess)),
               req_failed_moves = illegalMoves E chess (take k pending)\<rparr>) [0..<n]"

text \<open>
  Vocabulary for statements about a game: the opponent of a side, the side to move, and the
  number of \<open>TIMEOUT\<close> errors of a turn. \<open>countedTimeouts\<close> is what the loop holds in
  \<open>timeouts[player]\<close>, read off the turns of the game: the \<open>TIMEOUT\<close> errors of the turns
  in which the side returned a legal move, since the loop returns at a turn without a move
  before it adds that turn's errors (lemma \<open>gameLoop_while_timeouts\<close>).
\<close>

definition opponentOf :: "Player \<Rightarrow> Player" where
  "opponentOf p = (if p = White then Black else White)"

definition sideToMove :: "('pos, 'mv) Engine \<Rightarrow> ('pos, 'mv) Chess \<Rightarrow> Player" where
  "sideToMove E chess = colourToPlayer (rules_turn E (board chess))"

definition timeoutsIn :: "'mv MoveResponse \<Rightarrow> nat" where
  "timeoutsIn resp = length (filter (\<lambda>e. e = TIMEOUT) (errors resp))"


definition timeoutForfeit :: "Error + 'mv GameOutcome \<Rightarrow> bool" where
  "timeoutForfeit res =
     (case res of
        Inl e \<Rightarrow> False
      | Inr out \<Rightarrow> type out = WIN \<and> reason out = OPPONENT_TIMEOUT)"



text \<open>
  Vocabulary for statements about the standings: the games a bot has won (the \<open>WIN\<close>
  outcomes whose \<open>winner\<close> is its name), drawn and lost, among a list of outcomes. An
  outcome has ordinary names when neither of its bots is named as an inherited key, and is
  regular when its two seats are held by different bots and, for a \<open>WIN\<close>, the winner is
  one of the two.
\<close>

definition wonBy :: "string \<Rightarrow> 'mv GameOutcome list \<Rightarrow> nat" where
  "wonBy b outcomes =
     length (filter (\<lambda>out. type out = WIN \<and> winner out = Some b) outcomes)"

definition lostBy :: "string \<Rightarrow> 'mv GameOutcome list \<Rightarrow> nat" where
  "lostBy b outcomes =
     length (filter (\<lambda>out. type out = WIN \<and> winner out \<noteq> Some b \<and>
                           (white (players out) = b \<or> black (players out) = b)) outcomes)"

definition drawnBy :: "string \<Rightarrow> 'mv GameOutcome list \<Rightarrow> nat" where
  "drawnBy b outcomes =
     length (filter (\<lambda>out. type out \<noteq> WIN \<and>
                           (white (players out) = b \<or> black (players out) = b)) outcomes)"

definition ordinaryNames :: "'mv GameOutcome \<Rightarrow> bool" where
  "ordinaryNames out =
     (\<not> inheritedKey (white (players out)) \<and> \<not> inheritedKey (black (players out)))"

definition regularOutcome :: "'mv GameOutcome \<Rightarrow> bool" where
  "regularOutcome out =
     (white (players out) \<noteq> black (players out) \<and>
      (if type out = WIN
       then winner out = Some (white (players out)) \<or> winner out = Some (black (players out))
       else True))"

text \<open>
  The row of a bot in the dictionary (a fresh row while the bot has none), the sum of the
  points of all rows, and the shape of the dictionary: one row per key, filed under the
  name of its bot.
\<close>

definition rowOf :: "Totals \<Rightarrow> string \<Rightarrow> PointTotals" where
  "rowOf totals k = (case map_of totals k of None \<Rightarrow> newTotals k | Some t \<Rightarrow> t)"

definition pointsSum :: "Totals \<Rightarrow> rat" where
  "pointsSum totals = sum_list (map (\<lambda>kt. points (snd kt)) totals)"

definition wellKeyed :: "Totals \<Rightarrow> bool" where
  "wellKeyed totals =
     (distinct (map fst totals) \<and> list_all (\<lambda>kt. bot (snd kt) = fst kt) totals)"

text \<open>A row is worth its wins, draws and losses.\<close>

definition worth :: "PointTotals \<Rightarrow> bool" where
  "worth t = (points t = of_nat (wins t) * POINTS_PER_WIN + of_nat (draws t) * POINTS_PER_DRAW +
     of_nat (losses t) * POINTS_PER_LOSS)"

section \<open>A small rules engine for the examples\<close>

text \<open>
  The examples below run the model on a rules engine small enough to follow by hand: a
  position is the number of plies played, white is to move at even positions, every text
  without a question mark is a legal move, and the game is drawn by the move count after
  \<open>n\<close> plies.
\<close>

definition toyEngine :: "nat \<Rightarrow> (nat, string) Engine" where
  "toyEngine n =
     \<lparr>rules_loadPgn = (\<lambda>text. (0, [])),
      rules_turn = (\<lambda>pos. if pos mod 2 = 0 then ColorW else ColorB),
      rules_fen = (\<lambda>pos. replicate pos (CHR ''+'')),
      rules_move = (\<lambda>pos text. if text \<noteq> [] \<and> CHR ''?'' \<notin> set text
                                 then Some (Suc pos, text) else None),
      rules_pgn = (\<lambda>ms. concat (map (\<lambda>m. m @ '' '') ms)),
      rules_isGameOver = (\<lambda>pos. n \<le> pos),
      rules_isDraw = (\<lambda>pos. n \<le> pos),
      rules_isStalemate = (\<lambda>pos. False),
      rules_isInsufficientMaterial = (\<lambda>pos. False),
      rules_isDrawByFiftyMoves = (\<lambda>pos. n \<le> pos),
      rules_isThreefoldRepetition = (\<lambda>pos. False),
      rules_isCheckmate = (\<lambda>pos. False)\<rparr>"

definition toyPlayers :: Players where
  "toyPlayers = \<lparr>white = ''ada'', black = ''bob''\<rparr>"

text \<open>
  Two rejected requests. The code records a rejected \<open>fetch\<close> as \<open>TIMEOUT\<close> when the
  error is named \<open>DOMException\<close> and as \<open>OUT_OF_MEMORY\<close> otherwise. A request cut off by
  \<open>AbortSignal.timeout (MOVE_TIMEOUT)\<close> rejects with an error whose name is
  \<open>TimeoutError\<close>.
\<close>

definition namedDOMException :: FetchResult where
  "namedDOMException = Rejected ''DOMException''"

definition timedOut :: FetchResult where
  "timedOut = Rejected ''TimeoutError''"

definition toyWorld :: "FetchResult list \<Rightarrow> string World" where
  "toyWorld rs =
     \<lparr>pgnFiles = (\<lambda>path. []), resultFiles = Map.empty, dockerLog = [],
      net_pending = rs, net_sent = []\<rparr>"

text \<open>
  A game on the small engine in which white answers every request only at the third
  attempt, after two rejections that the code records as \<open>TIMEOUT\<close>, and black answers
  at once.
\<close>

definition slowTrace :: "FetchResult list" where
  "slowTrace =
     concat (replicate 7 [namedDOMException, namedDOMException, Response 200 ''e4'',
                          Response 200 ''e5'']) @
     [namedDOMException, namedDOMException, Response 200 ''Nf3'']"


text \<open>
  An outcome on file, and a world whose results directory holds it for the first opening
  of the pairing of \<open>toyPlayers\<close>.
\<close>

definition storedOutcome :: "string GameOutcome" where
  "storedOutcome =
     \<lparr>players = toyPlayers, pgn = ''e4 e5 '', moves = [''e4'', ''e5''], type = DRAW,
      reason = FIFTY_MOVES, winner = None, opponentErrors = None\<rparr>"

definition resumedWorld :: "string World" where
  "resumedWorld =
     (toyWorld [Response 200 ''e4''])
       \<lparr>resultFiles := [''results/ada-bob-01.json'' \<mapsto> storedOutcome]\<rparr>"

text \<open>A game won by a bot whose name is a key that every object inherits.\<close>

definition constructorWins :: "string GameOutcome" where
  "constructorWins =
     \<lparr>players = \<lparr>white = ''constructor'', black = ''bob''\<rparr>, pgn = ''e4 '', moves = [''e4''],
      type = WIN, reason = CHECKMATE, winner = Some ''constructor'', opponentErrors = None\<rparr>"

section \<open>Properties of the scheduler\<close>

lemma reduce_indexed_pairs:
  "array = pre @ vs \<Longrightarrow> i = length pre \<Longrightarrow>
   reduce_indexed (\<lambda>acc v i. acc @ map (\<lambda>w. (v, w)) (drop (i + 1) array)) acc i vs =
   acc @ concat (map (\<lambda>k. map (\<lambda>w. (vs ! k, w)) (drop (Suc k) vs)) [0..<length vs])"
proof (induction vs arbitrary: pre acc i)
  case Nil
  then show ?case by simp
next
  case (Cons v vs)
  have split: "array = (pre @ [v]) @ vs" "Suc i = length (pre @ [v])"
    using Cons.prems by simp_all
  have here: "drop (i + 1) array = vs"
    using Cons.prems by simp
  have shift: "[0..<length (v # vs)] = 0 # map Suc [0..<length vs]"
    by (simp add: upt_conv_Cons map_Suc_upt del: upt_Suc)
  show ?case
    unfolding reduce_indexed.simps Cons.IH [OF split] here shift
    by (simp add: comp_def)
qed

lemma permutations_Nil: "permutations [] = []"
  by (simp add: permutations_def)

lemma permutations_Cons: "permutations (x # xs) = map (\<lambda>w. (x, w)) xs @ permutations xs"
proof -
  have a: "permutations (x # xs) =
      concat (map (\<lambda>k. map (\<lambda>w. ((x # xs) ! k, w)) (drop (Suc k) (x # xs))) [0..<length (x # xs)])"
    unfolding permutations_def
    using reduce_indexed_pairs [of "x # xs" "[]" "x # xs" 0 "[]"] by simp
  have b: "permutations xs =
      concat (map (\<lambda>k. map (\<lambda>w. (xs ! k, w)) (drop (Suc k) xs)) [0..<length xs])"
    unfolding permutations_def
    using reduce_indexed_pairs [of xs "[]" xs 0 "[]"] by simp
  have shift: "[0..<length (x # xs)] = 0 # map Suc [0..<length xs]"
    by (simp add: upt_conv_Cons map_Suc_upt del: upt_Suc)
  show ?thesis
    unfolding a b shift by (simp add: comp_def)
qed

lemma length_permutations: "2 * length (permutations xs) = length xs * (length xs - 1)"
proof (induction xs)
  case Nil
  show ?case by (simp add: permutations_Nil)
next
  case (Cons x xs)
  then show ?case
    by (cases xs) (simp_all add: permutations_Cons algebra_simps)
qed

lemma set_permutations_subset:
  "p \<in> set (permutations xs) \<Longrightarrow> fst p \<in> set xs \<and> snd p \<in> set xs"
  by (induction xs) (auto simp: permutations_Nil permutations_Cons)

lemma permutations_distinct_sides:
  "distinct xs \<Longrightarrow> p \<in> set (permutations xs) \<Longrightarrow> fst p \<noteq> snd p"
proof (induction xs)
  case Nil
  then show ?case by (simp add: permutations_Nil)
next
  case (Cons x xs)
  then show ?case
    using set_permutations_subset [of p xs]
    by (auto simp: permutations_Cons)
qed

lemma appearances_absent:
  "e \<notin> set xs \<Longrightarrow> appearances e (permutations xs) = 0"
  using set_permutations_subset [of _ xs]
  by (auto simp: appearances_def pair_includes_def filter_empty_conv)

lemma appearances_head_new:
  "x \<notin> set xs \<Longrightarrow> appearances x (map (\<lambda>w. (x, w)) xs) = length xs"
  by (induction xs) (auto simp: appearances_def pair_includes_def)

lemma appearances_head_old:
  "distinct xs \<Longrightarrow> e \<in> set xs \<Longrightarrow> e \<noteq> x \<Longrightarrow> appearances e (map (\<lambda>w. (x, w)) xs) = 1"
proof (induction xs)
  case Nil
  then show ?case by simp
next
  case (Cons y ys)
  have none: "e \<notin> set ys \<Longrightarrow> appearances e (map (\<lambda>w. (x, w)) ys) = 0"
    using Cons.prems(3) by (auto simp: appearances_def pair_includes_def filter_empty_conv)
  show ?case
  proof (cases "e = y")
    case True
    then have "e \<notin> set ys" using Cons.prems(1) by simp
    with True none Cons.prems(3) show ?thesis
      by (simp add: appearances_def pair_includes_def)
  next
    case False
    then have "e \<in> set ys" using Cons.prems(2) by simp
    moreover have "distinct ys" using Cons.prems(1) by simp
    ultimately have "appearances e (map (\<lambda>w. (x, w)) ys) = 1"
      using Cons.IH Cons.prems(3) by simp
    with False Cons.prems(3) show ?thesis
      by (simp add: appearances_def pair_includes_def)
  qed
qed

lemma appearances_append:
  "appearances e (ps @ qs) = appearances e ps + appearances e qs"
  by (simp add: appearances_def)

lemma appearances_permutations:
  "distinct xs \<Longrightarrow> e \<in> set xs \<Longrightarrow> appearances e (permutations xs) = length xs - 1"
proof (induction xs)
  case Nil
  then show ?case by simp
next
  case (Cons x xs)
  show ?case
  proof (cases "e = x")
    case True
    then have "x \<notin> set xs" using Cons.prems(1) by simp
    then show ?thesis
      using True
      by (simp add: permutations_Cons appearances_append appearances_head_new
          appearances_absent)
  next
    case False
    then have mem: "e \<in> set xs" using Cons.prems(2) by simp
    have d: "distinct xs" using Cons.prems(1) by simp
    have pos: "0 < length xs" using mem by (cases xs) simp_all
    show ?thesis
      using False pos
      by (simp add: permutations_Cons appearances_append
          appearances_head_old [OF d mem False] Cons.IH [OF d mem])
  qed
qed

text \<open>
  Claim C2. For a list of \<open>N\<close> distinct entrant names, \<open>permutations\<close> returns exactly
  \<open>N (N - 1) / 2\<close> pairs, the two sides of every pair are different entrants of the list,
  and every entrant takes part in exactly \<open>N - 1\<close> of the pairs.
\<close>

theorem permutations_round_robin:
  "distinct names \<Longrightarrow>
     length (permutations names) = length names * (length names - 1) div 2 \<and>
     (\<forall>p \<in> set (permutations names).
        fst p \<noteq> snd p \<and> fst p \<in> set names \<and> snd p \<in> set names) \<and>
     (\<forall>e \<in> set names. appearances e (permutations names) = length names - 1)"
proof (intro conjI)
  assume d: "distinct names"
  show "length (permutations names) = length names * (length names - 1) div 2"
    using length_permutations [of names] by presburger
  show "\<forall>p \<in> set (permutations names).
           fst p \<noteq> snd p \<and> fst p \<in> set names \<and> snd p \<in> set names"
    using d permutations_distinct_sides set_permutations_subset by blast
  show "\<forall>e \<in> set names. appearances e (permutations names) = length names - 1"
    using d appearances_permutations by blast
qed

theorem permutations_round_robin_witness:
  "distinct [''ada'', ''bob'', ''cy''] \<and>
   permutations [''ada'', ''bob'', ''cy''] =
     [(''ada'', ''bob''), (''ada'', ''cy''), (''bob'', ''cy'')] \<and>
   length (permutations [''ada'', ''bob'', ''cy'']) = 3 \<and>
   appearances ''bob'' (permutations [''ada'', ''bob'', ''cy'']) = 2"
  using permutations_round_robin [of "[''ada'', ''bob'', ''cy'']"]
  by (simp add: permutations_def)

lemma place_invariant:
  assumes cap: "0 < cap"
    and inv: "\<forall>g \<in> set gs. int (length g) \<le> cap \<and> (\<forall>e. appearances e g \<le> 1)"
  shows "\<forall>g \<in> set (place cap pair gs). int (length g) \<le> cap \<and> (\<forall>e. appearances e g \<le> 1)"
  using inv
proof (induction gs)
  case Nil
  show ?case using cap by (simp add: appearances_def)
next
  case (Cons g gs)
  show ?case
  proof (cases "available cap pair g")
    case True
    have len: "int (length (g @ [pair])) \<le> cap"
      using True by (simp add: available_def)
    have fresh: "appearances e g = 0" if "pair_includes pair e" for e
      using True that
      by (auto simp: available_def appearances_def pair_includes_def list_ex_iff
          filter_empty_conv)
    have once: "appearances e (g @ [pair]) \<le> 1" for e
    proof (cases "pair_includes pair e")
      case True
      then show ?thesis using fresh [OF True] by (simp add: appearances_def)
    next
      case False
      then show ?thesis using Cons.prems by (simp add: appearances_def)
    qed
    show ?thesis using True len once Cons.prems by simp
  next
    case False
    then show ?thesis using Cons by simp
  qed
qed

lemma makeGroups_invariant:
  assumes cap: "0 < cap"
    and inv: "\<forall>g \<in> set gs. int (length g) \<le> cap \<and> (\<forall>e. appearances e g \<le> 1)"
  shows "\<forall>g \<in> set (foldl (\<lambda>groups pair. place cap pair groups) gs pairs).
           int (length g) \<le> cap \<and> (\<forall>e. appearances e g \<le> 1)"
  using inv
proof (induction pairs arbitrary: gs)
  case Nil
  then show ?case by simp
next
  case (Cons p ps)
  show ?case
    using Cons.IH [OF place_invariant [OF cap Cons.prems]] by simp
qed

text \<open>
  Claim C1. For every list of entrants and every number of cores for which the capacity
  \<open>floor ((cores - 2) / 4)\<close> is positive, every group that the greedy grouping builds from
  the pairing list holds at most that many pairings, and no entrant takes part in more
  than one pairing of the group.
\<close>

theorem makeGroups_bounded_disjoint:
  "0 < pairsPerGroup cpus \<Longrightarrow>
   \<forall>g \<in> set (makeGroups (pairsPerGroup cpus) (permutations names)).
      int (length g) \<le> pairsPerGroup cpus \<and> (\<forall>e. appearances e g \<le> 1)"
  unfolding makeGroups_def
  by (rule makeGroups_invariant) simp_all

theorem makeGroups_bounded_disjoint_witness:
  "0 < pairsPerGroup 10 \<and> pairsPerGroup 10 = 2 \<and>
   makeGroups (pairsPerGroup 10) (permutations [''ada'', ''bob'', ''cy'', ''dee'']) =
     [[(''ada'', ''bob''), (''cy'', ''dee'')],
      [(''ada'', ''cy''), (''bob'', ''dee'')],
      [(''ada'', ''dee''), (''bob'', ''cy'')]] \<and>
   list_all (\<lambda>g. int (length g) \<le> pairsPerGroup 10 \<and> appearances ''ada'' g \<le> 1)
     (makeGroups (pairsPerGroup 10) (permutations [''ada'', ''bob'', ''cy'', ''dee'']))"
  using makeGroups_bounded_disjoint [of 10 "[''ada'', ''bob'', ''cy'', ''dee'']"]
  by (simp add: pairsPerGroup_def permutations_def makeGroups_def available_def
      pair_includes_def appearances_def)

section \<open>Properties of a turn\<close>

lemma makeMove_loop_done:
  "\<not> attempt < MAX_ATTEMPTS_PER_TURN \<Longrightarrow>
   makeMove_loop E to pl fenText chess attempt failedMoves errs pending sent =
     Some \<lparr>turn_result = Inr \<lparr>move = None, player = pl, errors = errs\<rparr>,
           turn_chess = chess, turn_pending = pending, turn_sent = sent\<rparr>"
  by (subst makeMove_loop.simps) simp

lemma makeMove_loop_Nil:
  "attempt < MAX_ATTEMPTS_PER_TURN \<Longrightarrow>
   makeMove_loop E to pl fenText chess attempt failedMoves errs [] sent = None"
  by (subst makeMove_loop.simps) simp

lemma makeMove_loop_Rejected:
  "attempt < MAX_ATTEMPTS_PER_TURN \<Longrightarrow>
   makeMove_loop E to pl fenText chess attempt failedMoves errs (Rejected name # rest) sent =
     makeMove_loop E to pl fenText chess (attempt + 1) failedMoves
       (errs @ [if name = ''DOMException'' then TIMEOUT else OUT_OF_MEMORY]) rest
       (sent @ [\<lparr>req_to = to, req_fen = fenText, req_turn = pl,
                 req_failed_moves = failedMoves\<rparr>])"
  by (subst makeMove_loop.simps) simp

lemma makeMove_loop_invalid:
  "attempt < MAX_ATTEMPTS_PER_TURN \<Longrightarrow> \<not> response_ok st \<Longrightarrow>
   makeMove_loop E to pl fenText chess attempt failedMoves errs (Response st body # rest) sent =
     Some \<lparr>turn_result = Inl \<lparr>message = body, status = st\<rparr>, turn_chess = chess,
           turn_pending = rest,
           turn_sent = sent @ [\<lparr>req_to = to, req_fen = fenText, req_turn = pl,
                                req_failed_moves = failedMoves\<rparr>]\<rparr>"
  by (subst makeMove_loop.simps) simp

lemma makeMove_loop_illegal:
  "attempt < MAX_ATTEMPTS_PER_TURN \<Longrightarrow> response_ok st \<Longrightarrow> chess_move E chess body = None \<Longrightarrow>
   makeMove_loop E to pl fenText chess attempt failedMoves errs (Response st body # rest) sent =
     makeMove_loop E to pl fenText chess (attempt + 1) (failedMoves @ [body])
       (errs @ [INVALID_MOVE body]) rest
       (sent @ [\<lparr>req_to = to, req_fen = fenText, req_turn = pl,
                 req_failed_moves = failedMoves\<rparr>])"
  by (subst makeMove_loop.simps) simp

lemma makeMove_loop_legal:
  "attempt < MAX_ATTEMPTS_PER_TURN \<Longrightarrow> response_ok st \<Longrightarrow>
   chess_move E chess body = Some (chess', m) \<Longrightarrow>
   makeMove_loop E to pl fenText chess attempt failedMoves errs (Response st body # rest) sent =
     Some \<lparr>turn_result = Inr \<lparr>move = Some m, player = pl, errors = errs\<rparr>,
           turn_chess = chess', turn_pending = rest,
           turn_sent = sent @ [\<lparr>req_to = to, req_fen = fenText, req_turn = pl,
                                req_failed_moves = failedMoves\<rparr>]\<rparr>"
  by (subst makeMove_loop.simps) simp

lemma illegalMoves_Nil [simp]: "illegalMoves E chess [] = []"
  by (simp add: illegalMoves_def)

lemma illegalMoves_Cons_Rejected:
  "illegalMoves E chess (Rejected name # rs) = illegalMoves E chess rs"
  by (simp add: illegalMoves_def)

lemma illegalMoves_Cons_illegal:
  "response_ok st \<Longrightarrow> chess_move E chess body = None \<Longrightarrow>
   illegalMoves E chess (Response st body # rs) = body # illegalMoves E chess rs"
  by (simp add: illegalMoves_def)

lemma makeMove_loop_requests:
  "makeMove_loop E to pl fenText chess attempt failedMoves errs pending sent = Some t \<Longrightarrow>
   attempt \<le> MAX_ATTEMPTS_PER_TURN \<Longrightarrow>
   \<exists>n. attempt + n \<le> MAX_ATTEMPTS_PER_TURN \<and> n \<le> length pending \<and>
       turn_pending t = drop n pending \<and>
       turn_sent t = sent @ map (\<lambda>k. \<lparr>req_to = to, req_fen = fenText, req_turn = pl,
          req_failed_moves = failedMoves @ illegalMoves E chess (take k pending)\<rparr>) [0..<n]"
proof (induction E to pl fenText chess attempt failedMoves errs pending sent
    rule: makeMove_loop.induct)
  case (1 E to pl fenText chess attempt failedMoves errs pending sent)
  let ?req = "\<lambda>fm ps k. \<lparr>req_to = to, req_fen = fenText, req_turn = pl,
          req_failed_moves = fm @ illegalMoves E chess (take k ps)\<rparr>"
  let ?first = "\<lparr>req_to = to, req_fen = fenText, req_turn = pl,
          req_failed_moves = failedMoves\<rparr>"
  show ?case
  proof (cases "attempt < MAX_ATTEMPTS_PER_TURN")
    case False
    then have "t = \<lparr>turn_result = Inr \<lparr>move = None, player = pl, errors = errs\<rparr>,
           turn_chess = chess, turn_pending = pending, turn_sent = sent\<rparr>"
      using "1.prems"(1) by (simp add: makeMove_loop_done)
    then show ?thesis using "1.prems"(2) by (intro exI [of _ 0]) simp
  next
    case att: True
    show ?thesis
    proof (cases pending)
      case Nil
      then show ?thesis using "1.prems"(1) att by (simp add: makeMove_loop_Nil)
    next
      case (Cons r rest)
      show ?thesis
      proof (cases r)
        case (Rejected name)
        have run: "makeMove_loop E to pl fenText chess (attempt + 1) failedMoves
            (errs @ [if name = ''DOMException'' then TIMEOUT else OUT_OF_MEMORY]) rest
            (sent @ [?first]) = Some t"
          using "1.prems"(1) att Cons Rejected by (simp add: makeMove_loop_Rejected)
        obtain n where n: "attempt + 1 + n \<le> MAX_ATTEMPTS_PER_TURN" "n \<le> length rest"
          "turn_pending t = drop n rest"
          "turn_sent t = (sent @ [?first]) @ map (?req failedMoves rest) [0..<n]"
          using "1.IH"(1) [OF att Cons refl Rejected run] att by auto
        have "map (?req failedMoves pending) [0..<Suc n] =
              ?first # map (?req failedMoves rest) [0..<n]"
          unfolding map_upt_Suc using Cons Rejected
          by (simp add: illegalMoves_Cons_Rejected)
        then show ?thesis
          using n Cons by (intro exI [of _ "Suc n"]) simp
      next
        case (Response st body)
        show ?thesis
        proof (cases "response_ok st")
          case False
          then have "t = \<lparr>turn_result = Inl \<lparr>message = body, status = st\<rparr>, turn_chess = chess,
              turn_pending = rest, turn_sent = sent @ [?first]\<rparr>"
            using "1.prems"(1) att Cons Response by (simp add: makeMove_loop_invalid)
          then show ?thesis
            using att Cons by (intro exI [of _ "Suc 0"]) simp
        next
          case ok: True
          show ?thesis
          proof (cases "chess_move E chess body")
            case None
            have run: "makeMove_loop E to pl fenText chess (attempt + 1) (failedMoves @ [body])
                (errs @ [INVALID_MOVE body]) rest (sent @ [?first]) = Some t"
              using "1.prems"(1) att Cons Response ok None
              by (simp add: makeMove_loop_illegal)
            obtain n where n: "attempt + 1 + n \<le> MAX_ATTEMPTS_PER_TURN" "n \<le> length rest"
              "turn_pending t = drop n rest"
              "turn_sent t = (sent @ [?first]) @
                 map (?req (failedMoves @ [body]) rest) [0..<n]"
              using "1.IH"(2) [OF att Cons refl Response _ None run] att ok by auto
            have "map (?req failedMoves pending) [0..<Suc n] =
                  ?first # map (?req (failedMoves @ [body]) rest) [0..<n]"
              unfolding map_upt_Suc using Cons Response ok None
              by (simp add: illegalMoves_Cons_illegal)
            then show ?thesis
              using n Cons by (intro exI [of _ "Suc n"]) simp
          next
            case (Some cm)
            obtain chess' m where cm: "cm = (chess', m)" by (cases cm)
            have "t = \<lparr>turn_result = Inr \<lparr>move = Some m, player = pl, errors = errs\<rparr>,
                turn_chess = chess', turn_pending = rest,
                turn_sent = sent @ [?first]\<rparr>"
              using "1.prems"(1) att Cons Response ok Some cm
              by (simp add: makeMove_loop_legal)
            then show ?thesis
              using att Cons by (intro exI [of _ "Suc 0"]) simp
          qed
        qed
      qed
    qed
  qed
qed

lemma makeMove_loop_exhaust:
  "list_all (attemptFails E chess) rs \<Longrightarrow> attempt + length rs = MAX_ATTEMPTS_PER_TURN \<Longrightarrow>
   makeMove_loop E to pl fenText chess attempt failedMoves errs (rs @ rest) sent =
     Some \<lparr>turn_result = Inr \<lparr>move = None, player = pl, errors = errs @ map attemptError rs\<rparr>,
           turn_chess = chess, turn_pending = rest,
           turn_sent = sent @ map (\<lambda>k. \<lparr>req_to = to, req_fen = fenText, req_turn = pl,
             req_failed_moves = failedMoves @ illegalMoves E chess (take k rs)\<rparr>)
               [0..<length rs]\<rparr>"
proof (induction rs arbitrary: attempt failedMoves errs sent)
  case Nil
  then show ?case by (simp add: makeMove_loop_done)
next
  case (Cons r rs)
  have att: "attempt < MAX_ATTEMPTS_PER_TURN" using Cons.prems(2) by simp
  have rest: "list_all (attemptFails E chess) rs" "attempt + 1 + length rs = MAX_ATTEMPTS_PER_TURN"
    using Cons.prems by simp_all
  show ?case
  proof (cases r)
    case (Rejected name)
    show ?thesis
      unfolding Rejected append_Cons makeMove_loop_Rejected [OF att]
        Cons.IH [OF rest] length_Cons map_upt_Suc
      by (simp add: attemptError_def illegalMoves_Cons_Rejected)
  next
    case (Response st body)
    then have ok: "response_ok st" and bad: "chess_move E chess body = None"
      using Cons.prems(1) by (simp_all add: attemptFails_def)
    show ?thesis
      unfolding Response append_Cons makeMove_loop_illegal [OF att ok bad]
        Cons.IH [OF rest] length_Cons map_upt_Suc
      by (simp add: attemptError_def illegalMoves_Cons_illegal [OF ok bad])
  qed
qed


lemma makeMove_loop_returns:
  "MAX_ATTEMPTS_PER_TURN \<le> attempt + length pending \<Longrightarrow>
   makeMove_loop E to pl fenText chess attempt failedMoves errs pending sent \<noteq> None"
proof (induction pending arbitrary: attempt failedMoves errs sent)
  case Nil
  then show ?case by (simp add: makeMove_loop_done)
next
  case (Cons r rest)
  show ?case
  proof (cases "attempt < MAX_ATTEMPTS_PER_TURN")
    case False
    then show ?thesis by (simp add: makeMove_loop_done)
  next
    case att: True
    have more: "MAX_ATTEMPTS_PER_TURN \<le> (attempt + 1) + length rest"
      using Cons.prems by simp
    show ?thesis
    proof (cases r)
      case (Rejected name)
      show ?thesis
        unfolding Rejected makeMove_loop_Rejected [OF att] by (rule Cons.IH [OF more])
    next
      case (Response st body)
      show ?thesis
      proof (cases "response_ok st")
        case False
        then show ?thesis
          unfolding Response by (simp add: makeMove_loop_invalid [OF att])
      next
        case ok: True
        show ?thesis
        proof (cases "chess_move E chess body")
          case None
          show ?thesis
            unfolding Response makeMove_loop_illegal [OF att ok None]
            by (rule Cons.IH [OF more])
        next
          case (Some cm)
          obtain chess' m where "cm = (chess', m)" by (cases cm)
          then show ?thesis
            unfolding Response using Some by (simp add: makeMove_loop_legal [OF att ok])
        qed
      qed
    qed
  qed
qed

text \<open>
  Claim C5. A turn issues at most three move requests: the requests that \<open>makeMove\<close>
  posts are the first \<open>n\<close> requests of the turn for some \<open>n \<le> 3\<close>, one per fetch result
  consumed, and each carries in \<open>failed_moves\<close> exactly the illegal moves of the attempts
  before it. When the first three attempts all fail (a timeout, a transport failure or an
  illegal move), the turn returns \<open>move = null\<close> with exactly the three turn-errors of
  those attempts, in order, and leaves the position as it was. A turn returns whenever
  three fetch results are at hand.
\<close>

theorem makeMove_retry_protocol:
  "(\<forall>t. makeMove E chess ps pending sent = Some t \<longrightarrow>
      (\<exists>n. n \<le> MAX_ATTEMPTS_PER_TURN \<and> n \<le> length pending \<and>
           turn_pending t = drop n pending \<and>
           turn_sent t = sent @ turnRequests E chess ps pending n)) \<and>
   (MAX_ATTEMPTS_PER_TURN \<le> length pending \<and>
    list_all (attemptFails E chess) (take MAX_ATTEMPTS_PER_TURN pending) \<longrightarrow>
      makeMove E chess ps pending sent =
        Some \<lparr>turn_result =
                Inr \<lparr>move = None, player = colourToPlayer (rules_turn E (board chess)),
                     errors = map attemptError (take MAX_ATTEMPTS_PER_TURN pending)\<rparr>,
              turn_chess = chess, turn_pending = drop MAX_ATTEMPTS_PER_TURN pending,
              turn_sent = sent @ turnRequests E chess ps pending MAX_ATTEMPTS_PER_TURN\<rparr>) \<and>
   (MAX_ATTEMPTS_PER_TURN \<le> length pending \<longrightarrow> makeMove E chess ps pending sent \<noteq> None)"
proof (intro conjI allI impI)
  fix t
  assume "makeMove E chess ps pending sent = Some t"
  then show "\<exists>n. n \<le> MAX_ATTEMPTS_PER_TURN \<and> n \<le> length pending \<and>
           turn_pending t = drop n pending \<and>
           turn_sent t = sent @ turnRequests E chess ps pending n"
    unfolding makeMove_def Let_def turnRequests_def
    using makeMove_loop_requests [of E _ _ _ chess 0 "[]" "[]" pending sent t] by auto
next
  assume a: "MAX_ATTEMPTS_PER_TURN \<le> length pending \<and>
    list_all (attemptFails E chess) (take MAX_ATTEMPTS_PER_TURN pending)"
  let ?rs = "take MAX_ATTEMPTS_PER_TURN pending"
  have len: "0 + length ?rs = MAX_ATTEMPTS_PER_TURN" using a by simp
  have fails: "list_all (attemptFails E chess) ?rs" using a by simp
  have split: "pending = ?rs @ drop MAX_ATTEMPTS_PER_TURN pending" by simp
  have lrs: "length ?rs = MAX_ATTEMPTS_PER_TURN" using a by simp
  have same: "map (\<lambda>k. \<lparr>req_to = to, req_fen = f, req_turn = pl,
        req_failed_moves = [] @ illegalMoves E chess (take k ?rs)\<rparr>) [0..<length ?rs] =
      map (\<lambda>k. \<lparr>req_to = to, req_fen = f, req_turn = pl,
        req_failed_moves = illegalMoves E chess (take k pending)\<rparr>) [0..<MAX_ATTEMPTS_PER_TURN]"
    for to f pl
    unfolding lrs by (rule map_cong) (simp_all add: min_def)
  have "makeMove E chess ps pending sent =
      makeMove_loop E (playerName ps (colourToPlayer (rules_turn E (board chess))))
        (colourToPlayer (rules_turn E (board chess))) (rules_fen E (board chess)) chess 0 [] []
        (?rs @ drop MAX_ATTEMPTS_PER_TURN pending) sent"
    unfolding makeMove_def Let_def by simp
  also have "\<dots> =
      Some \<lparr>turn_result =
                Inr \<lparr>move = None, player = colourToPlayer (rules_turn E (board chess)),
                     errors = [] @ map attemptError ?rs\<rparr>,
              turn_chess = chess, turn_pending = drop MAX_ATTEMPTS_PER_TURN pending,
              turn_sent = sent @ turnRequests E chess ps pending MAX_ATTEMPTS_PER_TURN\<rparr>"
    unfolding makeMove_loop_exhaust [OF fails len] same turnRequests_def ..
  finally show "makeMove E chess ps pending sent =
        Some \<lparr>turn_result =
                Inr \<lparr>move = None, player = colourToPlayer (rules_turn E (board chess)),
                     errors = map attemptError (take MAX_ATTEMPTS_PER_TURN pending)\<rparr>,
              turn_chess = chess, turn_pending = drop MAX_ATTEMPTS_PER_TURN pending,
              turn_sent = sent @ turnRequests E chess ps pending MAX_ATTEMPTS_PER_TURN\<rparr>"
    by simp
next
  assume "MAX_ATTEMPTS_PER_TURN \<le> length pending"
  then show "makeMove E chess ps pending sent \<noteq> None"
    unfolding makeMove_def Let_def by (intro makeMove_loop_returns) simp
qed

theorem makeMove_retry_protocol_witness:
  "makeMove (toyEngine 10) \<lparr>board = 0, history = []\<rparr> toyPlayers
     [Response 200 ''e9?'', Rejected ''DOMException'', Rejected ''ConnectionRefused'',
      Response 200 ''e4''] [] =
   Some \<lparr>turn_result =
           Inr \<lparr>move = None, player = White,
                errors = [INVALID_MOVE ''e9?'', TIMEOUT, OUT_OF_MEMORY]\<rparr>,
         turn_chess = \<lparr>board = 0, history = []\<rparr>,
         turn_pending = [Response 200 ''e4''],
         turn_sent =
           [\<lparr>req_to = ''ada'', req_fen = [], req_turn = White, req_failed_moves = []\<rparr>,
            \<lparr>req_to = ''ada'', req_fen = [], req_turn = White, req_failed_moves = [''e9?'']\<rparr>,
            \<lparr>req_to = ''ada'', req_fen = [], req_turn = White, req_failed_moves = [''e9?'']\<rparr>]\<rparr>"
  using makeMove_retry_protocol [of "toyEngine 10" "\<lparr>board = 0, history = []\<rparr>" toyPlayers
      "[Response 200 ''e9?'', Rejected ''DOMException'', Rejected ''ConnectionRefused'',
      Response 200 ''e4'']" "[]"]
  by (simp add: MAX_ATTEMPTS_PER_TURN_def attemptFails_def attemptError_def response_ok_def
      chess_move_def toyEngine_def toyPlayers_def turnRequests_def
      illegalMoves_def colourToPlayer_def upt_rec)

section \<open>Properties of a game\<close>

lemma gameLoop_while_over:
  "rules_isGameOver E (board chess) \<Longrightarrow>
   gameLoop_while E ps chess cp timeouts mvs turns pending sent =
     Some \<lparr>game_result = gameOver_result E ps chess cp mvs, game_chess = chess,
           game_timeouts = timeouts, game_turns = turns, game_pending = pending,
           game_sent = sent\<rparr>"
  by (subst gameLoop_while.simps) simp

lemma gameLoop_while_stuck:
  "\<not> rules_isGameOver E (board chess) \<Longrightarrow> makeMove E chess ps pending sent = None \<Longrightarrow>
   gameLoop_while E ps chess cp timeouts mvs turns pending sent = None"
  by (subst gameLoop_while.simps) simp

lemma gameLoop_while_invalid:
  "\<not> rules_isGameOver E (board chess) \<Longrightarrow> makeMove E chess ps pending sent = Some t \<Longrightarrow>
   turn_result t = Inl err \<Longrightarrow>
   gameLoop_while E ps chess cp timeouts mvs turns pending sent =
     Some \<lparr>game_result =
             Inl (InvalidResponseFrom (playerName ps (sideToMove E chess)) (sideToMove E chess)
                    (status err) (message err)),
           game_chess = turn_chess t, game_timeouts = timeouts, game_turns = turns,
           game_pending = turn_pending t, game_sent = turn_sent t\<rparr>"
  by (subst gameLoop_while.simps) (simp add: sideToMove_def Let_def)

lemma gameLoop_while_exceeded:
  "\<not> rules_isGameOver E (board chess) \<Longrightarrow> makeMove E chess ps pending sent = Some t \<Longrightarrow>
   turn_result t = Inr resp \<Longrightarrow> move resp = None \<Longrightarrow>
   gameLoop_while E ps chess cp timeouts mvs turns pending sent =
     Some \<lparr>game_result =
             Inr (forfeitOutcome ps (chess_pgn E (turn_chess t)) mvs
                    OPPONENT_EXCEEDED_MAX_ATTEMPTS
                    (playerName ps (opponentOf (sideToMove E chess))) (errors resp)),
           game_chess = turn_chess t, game_timeouts = timeouts,
           game_turns = turns @ [resp], game_pending = turn_pending t,
           game_sent = turn_sent t\<rparr>"
  by (subst gameLoop_while.simps) (simp add: sideToMove_def opponentOf_def Let_def)

lemma gameLoop_while_timeout:
  "\<not> rules_isGameOver E (board chess) \<Longrightarrow> makeMove E chess ps pending sent = Some t \<Longrightarrow>
   turn_result t = Inr resp \<Longrightarrow> move resp = Some m \<Longrightarrow>
   MAX_TIMEOUTS_PER_GAME \<le> timeouts (sideToMove E chess) + timeoutsIn resp \<Longrightarrow>
   gameLoop_while E ps chess cp timeouts mvs turns pending sent =
     Some \<lparr>game_result =
             Inr (forfeitOutcome ps (chess_pgn E (turn_chess t)) mvs OPPONENT_TIMEOUT
                    (playerName ps (opponentOf (sideToMove E chess))) (errors resp)),
           game_chess = turn_chess t,
           game_timeouts = timeouts
             (sideToMove E chess := timeouts (sideToMove E chess) + timeoutsIn resp),
           game_turns = turns @ [resp], game_pending = turn_pending t,
           game_sent = turn_sent t\<rparr>"
  by (subst gameLoop_while.simps) (simp add: sideToMove_def opponentOf_def timeoutsIn_def Let_def)

lemma gameLoop_while_continue:
  "\<not> rules_isGameOver E (board chess) \<Longrightarrow> makeMove E chess ps pending sent = Some t \<Longrightarrow>
   turn_result t = Inr resp \<Longrightarrow> move resp = Some m \<Longrightarrow>
   \<not> MAX_TIMEOUTS_PER_GAME \<le> timeouts (sideToMove E chess) + timeoutsIn resp \<Longrightarrow>
   gameLoop_while E ps chess cp timeouts mvs turns pending sent =
     gameLoop_while E ps (turn_chess t) (sideToMove E chess)
       (timeouts (sideToMove E chess := timeouts (sideToMove E chess) + timeoutsIn resp))
       (mvs @ [m]) (turns @ [resp]) (turn_pending t) (turn_sent t)"
  by (subst gameLoop_while.simps) (simp add: sideToMove_def timeoutsIn_def Let_def)

lemma gameLoop_while_induct_Some [consumes 1, case_names over invalid exceeded timeout continue]:
  assumes run: "gameLoop_while E ps chess cp timeouts mvs turns pending sent = Some g"
    and over: "\<And>chess cp timeouts mvs turns pending sent.
      rules_isGameOver E (board chess) \<Longrightarrow>
      P chess cp timeouts mvs turns pending sent
        \<lparr>game_result = gameOver_result E ps chess cp mvs, game_chess = chess,
         game_timeouts = timeouts, game_turns = turns, game_pending = pending,
         game_sent = sent\<rparr>"
    and invalid: "\<And>chess cp timeouts mvs turns pending sent t err.
      \<not> rules_isGameOver E (board chess) \<Longrightarrow> makeMove E chess ps pending sent = Some t \<Longrightarrow>
      turn_result t = Inl err \<Longrightarrow>
      P chess cp timeouts mvs turns pending sent
        \<lparr>game_result =
           Inl (InvalidResponseFrom (playerName ps (sideToMove E chess)) (sideToMove E chess)
                  (status err) (message err)),
         game_chess = turn_chess t, game_timeouts = timeouts, game_turns = turns,
         game_pending = turn_pending t, game_sent = turn_sent t\<rparr>"
    and exceeded: "\<And>chess cp timeouts mvs turns pending sent t resp.
      \<not> rules_isGameOver E (board chess) \<Longrightarrow> makeMove E chess ps pending sent = Some t \<Longrightarrow>
      turn_result t = Inr resp \<Longrightarrow> move resp = None \<Longrightarrow>
      P chess cp timeouts mvs turns pending sent
        \<lparr>game_result =
           Inr (forfeitOutcome ps (chess_pgn E (turn_chess t)) mvs
                  OPPONENT_EXCEEDED_MAX_ATTEMPTS
                  (playerName ps (opponentOf (sideToMove E chess))) (errors resp)),
         game_chess = turn_chess t, game_timeouts = timeouts,
         game_turns = turns @ [resp], game_pending = turn_pending t,
         game_sent = turn_sent t\<rparr>"
    and timeout: "\<And>chess cp timeouts mvs turns pending sent t resp m.
      \<not> rules_isGameOver E (board chess) \<Longrightarrow> makeMove E chess ps pending sent = Some t \<Longrightarrow>
      turn_result t = Inr resp \<Longrightarrow> move resp = Some m \<Longrightarrow>
      MAX_TIMEOUTS_PER_GAME \<le> timeouts (sideToMove E chess) + timeoutsIn resp \<Longrightarrow>
      P chess cp timeouts mvs turns pending sent
        \<lparr>game_result =
           Inr (forfeitOutcome ps (chess_pgn E (turn_chess t)) mvs OPPONENT_TIMEOUT
                  (playerName ps (opponentOf (sideToMove E chess))) (errors resp)),
         game_chess = turn_chess t,
         game_timeouts = timeouts
           (sideToMove E chess := timeouts (sideToMove E chess) + timeoutsIn resp),
         game_turns = turns @ [resp], game_pending = turn_pending t,
         game_sent = turn_sent t\<rparr>"
    and continue: "\<And>chess cp timeouts mvs turns pending sent t resp m g.
      \<not> rules_isGameOver E (board chess) \<Longrightarrow> makeMove E chess ps pending sent = Some t \<Longrightarrow>
      turn_result t = Inr resp \<Longrightarrow> move resp = Some m \<Longrightarrow>
      \<not> MAX_TIMEOUTS_PER_GAME \<le> timeouts (sideToMove E chess) + timeoutsIn resp \<Longrightarrow>
      P (turn_chess t) (sideToMove E chess)
        (timeouts (sideToMove E chess := timeouts (sideToMove E chess) + timeoutsIn resp))
        (mvs @ [m]) (turns @ [resp]) (turn_pending t) (turn_sent t) g \<Longrightarrow>
      P chess cp timeouts mvs turns pending sent g"
  shows "P chess cp timeouts mvs turns pending sent g"
  using run
proof (induction "length pending" arbitrary: chess cp timeouts mvs turns pending sent
    rule: less_induct)
  case less
  note run = less.prems
  show ?case
  proof (cases "rules_isGameOver E (board chess)")
    case True
    then show ?thesis
      using run over [OF True, of cp timeouts mvs turns pending sent]
      by (auto simp: gameLoop_while_over)
  next
    case notOver: False
    show ?thesis
    proof (cases "makeMove E chess ps pending sent")
      case None
      then show ?thesis
        using run notOver by (simp add: gameLoop_while_stuck)
    next
      case (Some t)
      show ?thesis
      proof (cases "turn_result t")
        case (Inl err)
        show ?thesis
          using run invalid [OF notOver Some Inl, of cp timeouts mvs turns]
          by (auto simp: gameLoop_while_invalid [OF notOver Some Inl])
      next
        case (Inr resp)
        show ?thesis
        proof (cases "move resp")
          case None
          show ?thesis
            using run exceeded [OF notOver Some Inr None, of cp timeouts mvs turns]
            by (auto simp: gameLoop_while_exceeded [OF notOver Some Inr None])
        next
          case m: (Some m)
          show ?thesis
          proof (cases "MAX_TIMEOUTS_PER_GAME \<le> timeouts (sideToMove E chess) + timeoutsIn resp")
            case True
            show ?thesis
              using run timeout [where timeouts = timeouts and cp = cp and mvs = mvs and turns = turns,
                  OF notOver Some Inr m True]
              by (auto simp: gameLoop_while_timeout [where timeouts = timeouts, OF notOver Some Inr m True])
          next
            case False
            have shorter: "length (turn_pending t) < length pending"
              using Some Inr m unfolding makeMove_def Let_def
              by (rule makeMove_loop_consumes)
            have next_run: "gameLoop_while E ps (turn_chess t) (sideToMove E chess)
                (timeouts (sideToMove E chess := timeouts (sideToMove E chess) + timeoutsIn resp))
                (mvs @ [m]) (turns @ [resp]) (turn_pending t) (turn_sent t) = Some g"
              using run by (simp add: gameLoop_while_continue [where timeouts = timeouts, OF notOver Some Inr m False])
            show ?thesis
              by (rule continue [where timeouts = timeouts and cp = cp and mvs = mvs and turns = turns,
                    OF notOver Some Inr m False less.hyps [OF shorter next_run]])
          qed
        qed
      qed
    qed
  qed
qed

lemma makeMove_loop_result:
  "makeMove_loop E to pl fenText chess attempt failedMoves errs pending sent = Some t \<Longrightarrow>
   (case turn_result t of
      Inl err \<Rightarrow> turn_chess t = chess
    | Inr resp \<Rightarrow>
        player resp = pl \<and>
        (case move resp of
           None \<Rightarrow> turn_chess t = chess
         | Some m \<Rightarrow> history (turn_chess t) = history chess @ [m]))"
proof (induction "length pending" arbitrary: attempt failedMoves errs pending sent)
  case 0
  then show ?case
    by (cases "attempt < MAX_ATTEMPTS_PER_TURN")
      (auto simp: makeMove_loop_Nil makeMove_loop_done)
next
  case (Suc k)
  then obtain r rest where pending: "pending = r # rest" and k: "k = length rest"
    by (cases pending) auto
  show ?case
  proof (cases "attempt < MAX_ATTEMPTS_PER_TURN")
    case False
    then show ?thesis using Suc.prems by (auto simp: makeMove_loop_done)
  next
    case att: True
    show ?thesis
    proof (cases r)
      case (Rejected name)
      show ?thesis
        using Suc.prems Suc.hyps(1) [OF k] unfolding pending Rejected makeMove_loop_Rejected [OF att]
        by blast
    next
      case (Response st body)
      show ?thesis
      proof (cases "response_ok st")
        case False
        then show ?thesis
          using Suc.prems unfolding pending Response
          by (auto simp: makeMove_loop_invalid [OF att])
      next
        case ok: True
        show ?thesis
        proof (cases "chess_move E chess body")
          case None
          show ?thesis
            using Suc.prems Suc.hyps(1) [OF k]
            unfolding pending Response makeMove_loop_illegal [OF att ok None]
            by blast
        next
          case (Some cm)
          obtain chess' m where cm: "cm = (chess', m)" by (cases cm)
          have "history chess' = history chess @ [m]"
            using Some cm by (auto simp: chess_move_def split: option.splits)
          then show ?thesis
            using Suc.prems Some cm unfolding pending Response
            by (auto simp: makeMove_loop_legal [OF att ok])
        qed
      qed
    qed
  qed
qed

lemma makeMove_result:
  assumes "makeMove E chess ps pending sent = Some t"
  shows "turn_result t = Inl err \<Longrightarrow> turn_chess t = chess"
    and "turn_result t = Inr resp \<Longrightarrow> player resp = sideToMove E chess"
    and "turn_result t = Inr resp \<Longrightarrow> move resp = None \<Longrightarrow> turn_chess t = chess"
    and "turn_result t = Inr resp \<Longrightarrow> move resp = Some m \<Longrightarrow>
           history (turn_chess t) = history chess @ [m]"
  using makeMove_loop_result [OF assms [unfolded makeMove_def Let_def]]
  by (auto simp: sideToMove_def)




lemma gameLoop_while_history:
  assumes "gameLoop_while E ps chess cp timeouts mvs turns pending sent = Some g"
  shows "history chess = h0 @ mvs \<Longrightarrow>
         (case game_result g of
            Inl e \<Rightarrow> True
          | Inr out \<Rightarrow>
              pgn out = chess_pgn E (game_chess g) \<and>
              (if reason out = OPPONENT_TIMEOUT then
                 game_turns g \<noteq> [] \<and>
                 (\<exists>m. move (last (game_turns g)) = Some m \<and>
                      history (game_chess g) = h0 @ moves out @ [m])
               else history (game_chess g) = h0 @ moves out))"
  using assms
proof (induction chess cp timeouts mvs turns pending sent g rule: gameLoop_while_induct_Some)
  case (over chess cp timeouts mvs turns pending sent)
  then show ?case
    by (simp add: gameOver_result_def drawOutcome_def Let_def)
next
  case (invalid chess cp timeouts mvs turns pending sent t err)
  then show ?case by simp
next
  case (exceeded chess cp timeouts mvs turns pending sent t resp)
  have "turn_chess t = chess"
    using makeMove_result(3) [OF exceeded(2,3,4)] .
  then show ?case
    using exceeded(5) by (simp add: forfeitOutcome_def)
next
  case (timeout chess cp timeouts mvs turns pending sent t resp m)
  have "history (turn_chess t) = history chess @ [m]"
    using makeMove_result(4) [OF timeout(2,3,4)] .
  then show ?case
    using timeout(4,6) by (simp add: forfeitOutcome_def)
next
  case (continue chess cp timeouts mvs turns pending sent t resp m g)
  have "history (turn_chess t) = h0 @ mvs @ [m]"
    using makeMove_result(4) [OF continue(2,3,4)] continue(7) by simp
  then show ?case
    using continue(6) by simp
qed








text \<open>
  Claim C9. In a game that ends by \<open>OPPONENT_TIMEOUT\<close>, the legal move of the forfeiting
  turn has been made on the \<open>Chess\<close> object, whose history the outcome's \<open>pgn\<close> renders,
  but it is not among the outcome's \<open>moves\<close>: the history is the opening, then the
  \<open>moves\<close>, then that one move.
\<close>

theorem forfeiting_move_not_recorded:
  "gameLoop_run E ps pgnText pending sent = Some g \<Longrightarrow> game_result g = Inr out \<Longrightarrow>
   reason out = OPPONENT_TIMEOUT \<Longrightarrow>
     pgn out = rules_pgn E (history (game_chess g)) \<and>
     (\<exists>m. move (last (game_turns g)) = Some m \<and>
          history (game_chess g) = history (chess_loadPgn E pgnText) @ moves out @ [m])"
proof -
  assume "gameLoop_run E ps pgnText pending sent = Some g"
    and out: "game_result g = Inr out" "reason out = OPPONENT_TIMEOUT"
  then have run: "gameLoop_while E ps (chess_loadPgn E pgnText) White (\<lambda>p. 0) [] []
      pending sent = Some g"
    by (simp add: gameLoop_run_def)
  show ?thesis
    using gameLoop_while_history [OF run, of "history (chess_loadPgn E pgnText)"] out
    by (simp add: chess_pgn_def)
qed

theorem forfeiting_move_not_recorded_witness:
  "\<exists>g out. gameLoop_run (toyEngine 40) toyPlayers [] slowTrace [] = Some g \<and>
     game_result g = Inr out \<and> reason out = OPPONENT_TIMEOUT \<and>
     pgn out = ''e4 e5 e4 e5 e4 e5 e4 e5 e4 e5 e4 e5 e4 e5 Nf3 '' \<and>
     moves out = [''e4'', ''e5'', ''e4'', ''e5'', ''e4'', ''e5'', ''e4'', ''e5'', ''e4'', ''e5'',
                  ''e4'', ''e5'', ''e4'', ''e5''] \<and>
     move (last (game_turns g)) = Some ''Nf3'' \<and>
     history (game_chess g) = moves out @ [''Nf3'']"
proof -
  have "case gameLoop_run (toyEngine 40) toyPlayers [] slowTrace [] of
          None \<Rightarrow> False
        | Some g \<Rightarrow>
            (case game_result g of
               Inl e \<Rightarrow> False
             | Inr out \<Rightarrow>
                 reason out = OPPONENT_TIMEOUT \<and>
                 pgn out = ''e4 e5 e4 e5 e4 e5 e4 e5 e4 e5 e4 e5 e4 e5 Nf3 '' \<and>
                 moves out = [''e4'', ''e5'', ''e4'', ''e5'', ''e4'', ''e5'', ''e4'', ''e5'',
                              ''e4'', ''e5'', ''e4'', ''e5'', ''e4'', ''e5'']) \<and>
            move (last (game_turns g)) = Some ''Nf3''"
    by code_simp
  then obtain g out
    where run: "gameLoop_run (toyEngine 40) toyPlayers [] slowTrace [] = Some g"
      and res: "game_result g = Inr out"
      and r: "reason out = OPPONENT_TIMEOUT"
      and p: "pgn out = ''e4 e5 e4 e5 e4 e5 e4 e5 e4 e5 e4 e5 e4 e5 Nf3 ''"
      and ms: "moves out = [''e4'', ''e5'', ''e4'', ''e5'', ''e4'', ''e5'', ''e4'', ''e5'',
                            ''e4'', ''e5'', ''e4'', ''e5'', ''e4'', ''e5'']"
      and mv: "move (last (game_turns g)) = Some ''Nf3''"
    by (auto split: option.splits sum.splits)
  have start: "history (chess_loadPgn (toyEngine 40) []) = ([] :: string list)"
    by (simp add: chess_loadPgn_def toyEngine_def)
  have "history (game_chess g) = moves out @ [''Nf3'']"
    using forfeiting_move_not_recorded [OF run res r] mv unfolding start by auto
  then show ?thesis
    using run res r p ms mv by blast
qed

lemma makeMove_three_rejections:
  "makeMove E chess ps (Rejected a # Rejected b # Rejected c # rest) sent =
     Some \<lparr>turn_result =
             Inr \<lparr>move = None, player = sideToMove E chess,
                  errors = map attemptError [Rejected a, Rejected b, Rejected c]\<rparr>,
           turn_chess = chess, turn_pending = rest,
           turn_sent = sent @ turnRequests E chess ps
             (Rejected a # Rejected b # Rejected c # rest) 3\<rparr>"
proof -
  have fails: "list_all (attemptFails E chess) [Rejected a, Rejected b, Rejected c]"
    by (simp add: attemptFails_def)
  have len: "0 + length [Rejected a, Rejected b, Rejected c] = MAX_ATTEMPTS_PER_TURN"
    by (simp add: MAX_ATTEMPTS_PER_TURN_def)
  have three: "[0..<3] = [0, 1, 2]"
    by (simp add: upt_rec)
  show ?thesis
    unfolding makeMove_def Let_def
    using makeMove_loop_exhaust [OF fails len, where rest = rest and sent = sent
        and errs = "[]" and failedMoves = "[]"]
    by (simp add: sideToMove_def turnRequests_def three illegalMoves_def)
qed

text \<open>
  Claim C4, as the code has it. When the three requests of a turn are rejected, as they are
  when the bot that is to move never responds, the turn records three turn-errors, one per
  request, and returns no move; the game ends at once as a win for the opponent by
  \<open>OPPONENT_EXCEEDED_MAX_ATTEMPTS\<close>, with the three turn-errors as \<open>opponentErrors\<close>, and
  the timeout counts of the loop are left as they were.
\<close>

theorem gameLoop_unresponsive_bot:
  "\<not> rules_isGameOver E (board chess) \<Longrightarrow>
   \<exists>errs. length errs = 3 \<and> list_all (\<lambda>e. e = TIMEOUT \<or> e = OUT_OF_MEMORY) errs \<and>
     gameLoop_while E ps chess cp timeouts mvs turns
       (Rejected a # Rejected b # Rejected c # rest) sent =
     Some \<lparr>game_result =
             Inr (forfeitOutcome ps (chess_pgn E chess) mvs OPPONENT_EXCEEDED_MAX_ATTEMPTS
                    (playerName ps (opponentOf (sideToMove E chess))) errs),
           game_chess = chess, game_timeouts = timeouts,
           game_turns = turns @ [\<lparr>move = None, player = sideToMove E chess, errors = errs\<rparr>],
           game_pending = rest,
           game_sent = sent @ turnRequests E chess ps
             (Rejected a # Rejected b # Rejected c # rest) 3\<rparr>"
proof -
  assume notOver: "\<not> rules_isGameOver E (board chess)"
  let ?errs = "map attemptError [Rejected a, Rejected b, Rejected c]"
  let ?resp = "\<lparr>move = None, player = sideToMove E chess, errors = ?errs\<rparr> :: 'b MoveResponse"
  have res: "turn_result \<lparr>turn_result = Inr ?resp, turn_chess = chess, turn_pending = rest,
      turn_sent = sent @ turnRequests E chess ps
        (Rejected a # Rejected b # Rejected c # rest) 3\<rparr> = Inr ?resp"
    by simp
  have none: "move ?resp = None"
    by simp
  have kinds: "length ?errs = 3 \<and> list_all (\<lambda>e. e = TIMEOUT \<or> e = OUT_OF_MEMORY) ?errs"
    by (simp add: attemptError_def)
  have run: "gameLoop_while E ps chess cp timeouts mvs turns
       (Rejected a # Rejected b # Rejected c # rest) sent =
     Some \<lparr>game_result =
             Inr (forfeitOutcome ps (chess_pgn E chess) mvs OPPONENT_EXCEEDED_MAX_ATTEMPTS
                    (playerName ps (opponentOf (sideToMove E chess))) ?errs),
           game_chess = chess, game_timeouts = timeouts,
           game_turns = turns @ [\<lparr>move = None, player = sideToMove E chess, errors = ?errs\<rparr>],
           game_pending = rest,
           game_sent = sent @ turnRequests E chess ps
             (Rejected a # Rejected b # Rejected c # rest) 3\<rparr>"
    using gameLoop_while_exceeded [where timeouts = timeouts and cp = cp and mvs = mvs
        and turns = turns, OF notOver makeMove_three_rejections res none]
    by simp
  show ?thesis
    using kinds run by (intro exI [of _ ?errs]) blast
qed

theorem gameLoop_unresponsive_bot_witness:
  "\<not> rules_isGameOver (toyEngine 40) (board \<lparr>board = 0, history = []\<rparr>) \<and>
   (\<exists>errs. length errs = 3 \<and>
      map_option game_result
        (gameLoop_while (toyEngine 40) toyPlayers \<lparr>board = 0, history = []\<rparr> White (\<lambda>p. 0) [] []
           [timedOut, timedOut, timedOut, Response 200 ''e4''] []) =
      Some (Inr (forfeitOutcome toyPlayers [] [] OPPONENT_EXCEEDED_MAX_ATTEMPTS ''bob'' errs))) \<and>
   map_option game_pending
     (gameLoop_while (toyEngine 40) toyPlayers \<lparr>board = 0, history = []\<rparr> White (\<lambda>p. 0) [] []
        [timedOut, timedOut, timedOut, Response 200 ''e4''] []) =
   Some [Response 200 ''e4'']"
proof -
  have notOver: "\<not> rules_isGameOver (toyEngine 40)
      (board \<lparr>board = 0 :: nat, history = ([] :: string list)\<rparr>)"
    by (simp add: toyEngine_def)
  obtain errs where errs: "length errs = 3"
    and run: "gameLoop_while (toyEngine 40) toyPlayers \<lparr>board = 0, history = []\<rparr> White
        (\<lambda>p. 0) [] [] [timedOut, timedOut, timedOut, Response 200 ''e4''] [] =
      Some \<lparr>game_result =
             Inr (forfeitOutcome toyPlayers
                    (chess_pgn (toyEngine 40) \<lparr>board = 0, history = []\<rparr>) []
                    OPPONENT_EXCEEDED_MAX_ATTEMPTS
                    (playerName toyPlayers
                      (opponentOf (sideToMove (toyEngine 40) \<lparr>board = 0, history = []\<rparr>))) errs),
           game_chess = \<lparr>board = 0, history = []\<rparr>, game_timeouts = (\<lambda>p. 0),
           game_turns = [] @ [\<lparr>move = None,
               player = sideToMove (toyEngine 40) \<lparr>board = 0, history = []\<rparr>, errors = errs\<rparr>],
           game_pending = [Response 200 ''e4''],
           game_sent = [] @ turnRequests (toyEngine 40) \<lparr>board = 0, history = []\<rparr> toyPlayers
             [timedOut, timedOut, timedOut, Response 200 ''e4''] 3\<rparr>"
    using gameLoop_unresponsive_bot [OF notOver, of toyPlayers White "\<lambda>p. 0" "[]" "[]"
        "''TimeoutError''" "''TimeoutError''" "''TimeoutError''" "[Response 200 ''e4'']" "[]"]
    unfolding timedOut_def by blast
  have names: "chess_pgn (toyEngine 40) \<lparr>board = 0, history = []\<rparr> = []"
    "playerName toyPlayers
       (opponentOf (sideToMove (toyEngine 40) \<lparr>board = 0, history = []\<rparr>)) = ''bob''"
    by (simp_all add: chess_pgn_def toyEngine_def sideToMove_def opponentOf_def
        colourToPlayer_def toyPlayers_def)
  show ?thesis
    using notOver errs run unfolding names by auto
qed

theorem gameLoop_unresponsive_bot_counterexample:
  "\<exists>g. gameLoop_run (toyEngine 40) toyPlayers [] (replicate 45 timedOut) [] = Some g \<and>
       \<not> timeoutForfeit (game_result g) \<and>
       (\<exists>out errs. game_result g = Inr out \<and> type out = WIN \<and>
              reason out = OPPONENT_EXCEEDED_MAX_ATTEMPTS \<and> winner out = Some ''bob'' \<and>
              opponentErrors out = Some errs \<and> length errs = 3) \<and>
       length (game_turns g) = 1 \<and>
       game_timeouts g White = 0 \<and>
       length (game_pending g) = 42"
proof -
  have "case gameLoop_run (toyEngine 40) toyPlayers [] (replicate 45 timedOut) [] of
          None \<Rightarrow> False
        | Some g \<Rightarrow>
            \<not> timeoutForfeit (game_result g) \<and>
            (case game_result g of
               Inl e \<Rightarrow> False
             | Inr out \<Rightarrow>
                 type out = WIN \<and> reason out = OPPONENT_EXCEEDED_MAX_ATTEMPTS \<and>
                 winner out = Some ''bob'' \<and>
                 (case opponentErrors out of None \<Rightarrow> False | Some errs \<Rightarrow> length errs = 3)) \<and>
            length (game_turns g) = 1 \<and>
            game_timeouts g White = 0 \<and>
            length (game_pending g) = 42"
    by code_simp
  then show ?thesis
    by (auto split: option.splits sum.splits)
qed

section \<open>Properties of result files and sandboxes\<close>

text \<open>
  Claim C6. When the result file of a game exists, \<open>playAndSaveGame\<close> returns the outcome
  that the file holds and leaves the world as it was: no \<open>docker\<close> command is issued, so
  no sandbox is started, no request is posted and no file is written. A second run over
  the same results directory therefore finds the same file and returns the same outcome.
\<close>

theorem playAndSaveGame_resume:
  "resultFiles w (path_join saveDir (resultFileName ps pgnPath)) = Some out \<Longrightarrow>
   playAndSaveGame E ps pgnPath saveDir w = Some (Inr out, w)"
  by (simp add: playAndSaveGame_def)

theorem playAndSaveGame_resume_witness:
  "resultFiles resumedWorld (path_join ''results'' (resultFileName toyPlayers ''silversuite/01-open.pgn''))
     = Some storedOutcome \<and>
   playAndSaveGame (toyEngine 40) toyPlayers ''silversuite/01-open.pgn'' ''results'' resumedWorld =
     Some (Inr storedOutcome, resumedWorld) \<and>
   dockerLog resumedWorld = []"
  using playAndSaveGame_resume [of resumedWorld "''results''" toyPlayers
      "''silversuite/01-open.pgn''" storedOutcome "toyEngine 40"]
  by (simp add: resumedWorld_def toyWorld_def path_join_def resultFileName_def pgnNumber_def
      toyPlayers_def)

lemma playAndSaveGame_existing:
  "resultFiles w (path_join saveDir (resultFileName ps pgnPath)) = Some out \<Longrightarrow>
   playAndSaveGame E ps pgnPath saveDir w = Some (Inr out, w)"
  by (simp add: playAndSaveGame_def)

lemma playMatch_resume:
  "list_all (\<lambda>pgnPath.
       resultFiles w (path_join saveDir
         (resultFileName \<lparr>white = player1, black = player2\<rparr> pgnPath)) \<noteq> None \<and>
       resultFiles w (path_join saveDir
         (resultFileName \<lparr>white = player2, black = player1\<rparr> pgnPath)) \<noteq> None) pgnPaths \<Longrightarrow>
   playMatch E player1 player2 pgnPaths saveDir w =
     Some (Inr (concat (map (\<lambda>pgnPath.
        [the (resultFiles w (path_join saveDir
           (resultFileName \<lparr>white = player1, black = player2\<rparr> pgnPath))),
         the (resultFiles w (path_join saveDir
           (resultFileName \<lparr>white = player2, black = player1\<rparr> pgnPath)))]) pgnPaths)), w)"
proof (induction pgnPaths)
  case Nil
  show ?case by simp
next
  case (Cons pgnPath pgnPaths)
  obtain out1 out2
    where o1: "resultFiles w (path_join saveDir
         (resultFileName \<lparr>white = player1, black = player2\<rparr> pgnPath)) = Some out1"
      and o2: "resultFiles w (path_join saveDir
         (resultFileName \<lparr>white = player2, black = player1\<rparr> pgnPath)) = Some out2"
    using Cons.prems by auto
  have rest: "playMatch E player1 player2 pgnPaths saveDir w =
     Some (Inr (concat (map (\<lambda>pgnPath.
        [the (resultFiles w (path_join saveDir
           (resultFileName \<lparr>white = player1, black = player2\<rparr> pgnPath))),
         the (resultFiles w (path_join saveDir
           (resultFileName \<lparr>white = player2, black = player1\<rparr> pgnPath)))]) pgnPaths)), w)"
    using Cons by simp
  show ?case
    by (simp add: playAndSaveGame_existing [OF o1] playAndSaveGame_existing [OF o2] rest o1 o2)
qed

lemma gameLoop_dockerLog:
  "gameLoop E ps pgnPath w = Some (res, w') \<Longrightarrow>
   dockerLog w' = dockerLog w \<and> resultFiles w' = resultFiles w"
  by (auto simp: gameLoop_def split: option.splits)

lemma dockerLog_dockerStartAll:
  "dockerLog (dockerStartAll ps w) = dockerLog w @
     [DockerRun (dockerContainerName (white ps) White) (dockerImage (white ps)),
      DockerRun (dockerContainerName (black ps) Black) (dockerImage (black ps))]"
  by (simp add: dockerStartAll_def dockerStart_def)

lemma dockerLog_dockerStopAll:
  "dockerLog (dockerStopAll ps w) = dockerLog w @
     [DockerStop (dockerContainerName (white ps) White),
      DockerStop (dockerContainerName (black ps) Black)]"
  by (simp add: dockerStopAll_def dockerStop_def)

lemma resultFiles_docker [simp]:
  "resultFiles (dockerStartAll ps w) = resultFiles w"
  "resultFiles (dockerStopAll ps w) = resultFiles w"
  by (simp_all add: dockerStartAll_def dockerStart_def dockerStopAll_def dockerStop_def)

lemma playAndSaveGame_played:
  assumes absent: "resultFiles w (path_join saveDir (resultFileName ps pgnPath)) = None"
    and run: "playAndSaveGame E ps pgnPath saveDir w = Some (res, w')"
  obtains err w1 where "gameLoop E ps pgnPath (dockerStartAll ps w) = Some (Inl err, w1)"
      "res = Inl err" "w' = w1"
    | out w1 where "gameLoop E ps pgnPath (dockerStartAll ps w) = Some (Inr out, w1)"
      "res = Inr out" "w' = dockerStopAll ps (saveResult ps out pgnPath saveDir w1)"
proof (cases "gameLoop E ps pgnPath (dockerStartAll ps w)")
  case None
  then show ?thesis
    using absent run by (simp add: playAndSaveGame_def)
next
  case (Some rw)
  obtain gr w1 where rw: "rw = (gr, w1)" by (cases rw)
  show ?thesis
  proof (cases gr)
    case (Inl err)
    then show ?thesis
      using absent run Some rw that(1) by (auto simp: playAndSaveGame_def)
  next
    case (Inr out)
    then show ?thesis
      using absent run Some rw that(2) by (auto simp: playAndSaveGame_def)
  qed
qed

lemma playAndSaveGame_played_ok:
  assumes absent: "resultFiles w (path_join saveDir (resultFileName ps pgnPath)) = None"
    and run: "playAndSaveGame E ps pgnPath saveDir w = Some (Inr out, w')"
  shows "dockerLog w' = dockerLog w @
           [DockerRun (dockerContainerName (white ps) White) (dockerImage (white ps)),
            DockerRun (dockerContainerName (black ps) Black) (dockerImage (black ps)),
            DockerStop (dockerContainerName (white ps) White),
            DockerStop (dockerContainerName (black ps) Black)] \<and>
         resultFiles w' (path_join saveDir (resultFileName ps pgnPath)) = Some out"
  using absent run
proof (cases rule: playAndSaveGame_played)
  case (1 err w1)
  then show ?thesis by simp
next
  case (2 out' w1)
  then show ?thesis
    using gameLoop_dockerLog [OF 2(1)]
    by (simp add: dockerLog_dockerStopAll dockerLog_dockerStartAll saveResult_def)
qed

lemma playAndSaveGame_played_error:
  assumes run: "playAndSaveGame E ps pgnPath saveDir w = Some (Inl err, w')"
  shows "dockerLog w' = dockerLog w @
           [DockerRun (dockerContainerName (white ps) White) (dockerImage (white ps)),
            DockerRun (dockerContainerName (black ps) Black) (dockerImage (black ps))] \<and>
         resultFiles w' = resultFiles w"
proof (cases "resultFiles w (path_join saveDir (resultFileName ps pgnPath))")
  case (Some existing)
  then show ?thesis using run by (simp add: playAndSaveGame_def)
next
  case None
  from None run show ?thesis
  proof (cases rule: playAndSaveGame_played)
    case (1 err' w1)
    then show ?thesis
      using gameLoop_dockerLog [OF 1(1)] by (simp add: dockerLog_dockerStartAll)
  next
    case (2 out w1)
    then show ?thesis by simp
  qed
qed

text \<open>
  Claim C7, at a failing input. White's bot answers the first request with status 500:
  \<open>gameLoop\<close> returns the error, \<open>playAndSaveGame\<close> returns it at once, and the two
  containers it started are still running, since \<open>dockerStopAll\<close> comes only after the
  early return.
\<close>

theorem playAndSaveGame_leaks_sandboxes:
  "\<exists>w'. playAndSaveGame (toyEngine 40) toyPlayers ''silversuite/01-open.pgn'' ''results''
           (toyWorld [Response 500 ''boom'']) =
         Some (Inl (InvalidResponseFrom ''ada'' White 500 ''boom''), w') \<and>
       dockerLog w' = [DockerRun ''ada-white'' ''chess-bot-2025:ada'',
                       DockerRun ''bob-black'' ''chess-bot-2025:bob''] \<and>
       running (dockerLog w') [] = [''bob-black'', ''ada-white''] \<and>
       resultFiles w' ''results/ada-bob-01.json'' = None"
proof -
  have "case playAndSaveGame (toyEngine 40) toyPlayers ''silversuite/01-open.pgn'' ''results''
           (toyWorld [Response 500 ''boom'']) of
          None \<Rightarrow> False
        | Some rw \<Rightarrow>
            (case fst rw of
               Inl (InvalidResponseFrom name pl st msg) \<Rightarrow>
                 name = ''ada'' \<and> pl = White \<and> st = 500 \<and> msg = ''boom''
             | Inl UnknownGameState \<Rightarrow> False
             | Inl (GameFailed p1 p2 e) \<Rightarrow> False
             | Inr out \<Rightarrow> False) \<and>
            dockerLog (snd rw) = [DockerRun ''ada-white'' ''chess-bot-2025:ada'',
                                  DockerRun ''bob-black'' ''chess-bot-2025:bob''] \<and>
            running (dockerLog (snd rw)) [] = [''bob-black'', ''ada-white''] \<and>
            (case resultFiles (snd rw) ''results/ada-bob-01.json'' of
               None \<Rightarrow> True
             | Some out \<Rightarrow> False)"
    by code_simp
  then show ?thesis
    by (auto split: option.splits sum.splits Error.splits)
qed

section \<open>Properties of a group of matches\<close>

lemma matchSettled_exited:
  "exitCode P = Some code \<Longrightarrow> foldl matchSettled P settled = P"
  by (induction settled) (simp_all add: matchSettled_def)

lemma runGroup_running:
  "exitCode P = None \<Longrightarrow>
   stderr (runGroup P settled) = stderr P @ take 1 (fatalErrors settled) \<and>
   exitCode (runGroup P settled) = (if fatalErrors settled = [] then None else Some 1) \<and>
   finishedMatches (runGroup P settled) =
     finishedMatches P @ map fst (takeWhile (\<lambda>s. case snd s of Inl err \<Rightarrow> False | Inr u \<Rightarrow> True) settled)"
proof (induction settled arbitrary: P)
  case Nil
  then show ?case by (simp add: runGroup_def fatalErrors_def)
next
  case (Cons s settled)
  show ?case
  proof (cases "snd s")
    case (Inl err)
    have "exitCode (matchSettled P s) = Some 1"
      using Cons.prems Inl by (simp add: matchSettled_def)
    then have "runGroup P (s # settled) = matchSettled P s"
      by (simp add: runGroup_def matchSettled_exited)
    then show ?thesis
      using Cons.prems Inl by (simp add: matchSettled_def fatalErrors_def)
  next
    case (Inr u)
    have step: "matchSettled P s = P\<lparr>finishedMatches := finishedMatches P @ [fst s]\<rparr>"
      using Cons.prems Inr by (simp add: matchSettled_def)
    have "exitCode (matchSettled P s) = None"
      using Cons.prems step by simp
    from Cons.IH [OF this] show ?thesis
      using Inr step by (simp add: runGroup_def fatalErrors_def)
  qed
qed

text \<open>
  Claim C8, as the code has it. Whatever the matches of a group return and in whatever
  order they settle, the process prints at most one fatal error, the one of the match that
  fails first, and exits with status 1 as soon as it has printed it; the matches that
  would settle after it, failing or not, are cut off: their errors are not printed and
  they are not run to their end. Without a failing match the process goes on.
\<close>

theorem runGroup_first_failure:
  "stderr (runGroup freshProcess settled) = take 1 (fatalErrors settled) \<and>
   exitCode (runGroup freshProcess settled) = (if fatalErrors settled = [] then None else Some 1) \<and>
   finishedMatches (runGroup freshProcess settled) =
     map fst (takeWhile (\<lambda>s. case snd s of Inl err \<Rightarrow> False | Inr u \<Rightarrow> True) settled)"
  using runGroup_running [of freshProcess settled]
  by (simp add: freshProcess_def)

theorem runGroup_first_failure_witness:
  "stderr (runGroup freshProcess
     [((''ada'', ''bob''), Inr ()),
      ((''cy'', ''dee''), Inl (GameFailed ''cy'' ''dee'' UnknownGameState)),
      ((''eve'', ''fay''), Inr ())]) = [GameFailed ''cy'' ''dee'' UnknownGameState] \<and>
   exitCode (runGroup freshProcess
     [((''ada'', ''bob''), Inr ()),
      ((''cy'', ''dee''), Inl (GameFailed ''cy'' ''dee'' UnknownGameState)),
      ((''eve'', ''fay''), Inr ())]) = Some 1 \<and>
   finishedMatches (runGroup freshProcess
     [((''ada'', ''bob''), Inr ()),
      ((''cy'', ''dee''), Inl (GameFailed ''cy'' ''dee'' UnknownGameState)),
      ((''eve'', ''fay''), Inr ())]) = [(''ada'', ''bob'')]"
  using runGroup_first_failure [of
     "[((''ada'', ''bob''), Inr ()),
      ((''cy'', ''dee''), Inl (GameFailed ''cy'' ''dee'' UnknownGameState)),
      ((''eve'', ''fay''), Inr ())]"]
  by (simp add: fatalErrors_def)

theorem runGroup_reports_all_counterexample:
  "fatalErrors
     [((''ada'', ''bob''), Inl (GameFailed ''ada'' ''bob'' UnknownGameState)),
      ((''cy'', ''dee''), Inl (GameFailed ''dee'' ''cy'' UnknownGameState)),
      ((''eve'', ''fay''), Inr ())] =
     [GameFailed ''ada'' ''bob'' UnknownGameState, GameFailed ''dee'' ''cy'' UnknownGameState] \<and>
   stderr (runGroup freshProcess
     [((''ada'', ''bob''), Inl (GameFailed ''ada'' ''bob'' UnknownGameState)),
      ((''cy'', ''dee''), Inl (GameFailed ''dee'' ''cy'' UnknownGameState)),
      ((''eve'', ''fay''), Inr ())]) = [GameFailed ''ada'' ''bob'' UnknownGameState] \<and>
   exitCode (runGroup freshProcess
     [((''ada'', ''bob''), Inl (GameFailed ''ada'' ''bob'' UnknownGameState)),
      ((''cy'', ''dee''), Inl (GameFailed ''dee'' ''cy'' UnknownGameState)),
      ((''eve'', ''fay''), Inr ())]) = Some 1 \<and>
   finishedMatches (runGroup freshProcess
     [((''ada'', ''bob''), Inl (GameFailed ''ada'' ''bob'' UnknownGameState)),
      ((''cy'', ''dee''), Inl (GameFailed ''dee'' ''cy'' UnknownGameState)),
      ((''eve'', ''fay''), Inr ())]) = []"
  by (simp add: runGroup_def matchSettled_def freshProcess_def fatalErrors_def)

section \<open>Properties of the standings\<close>

lemma ensureTotals_keys:
  "\<not> inheritedKey name \<Longrightarrow>
   set (map fst (ensureTotals name totals)) = insert name (set (map fst totals))"
  by (auto simp: ensureTotals_def map_of_eq_None_iff dest: map_of_SomeD intro: rev_image_eqI)

lemma ensureTotals_wellKeyed:
  "wellKeyed totals \<Longrightarrow> wellKeyed (ensureTotals name totals)"
  by (auto simp: ensureTotals_def wellKeyed_def newTotals_def map_of_eq_None_iff)

lemma ensureTotals_pointsSum:
  "pointsSum (ensureTotals name totals) = pointsSum totals"
  by (simp add: ensureTotals_def pointsSum_def newTotals_def)

lemma ensureTotals_map_of:
  "map_of (ensureTotals name totals) k =
     (if k = name \<and> map_of totals name = None \<and> \<not> inheritedKey name
      then Some (newTotals name) else map_of totals k)"
  by (auto simp: ensureTotals_def map_add_def split: option.splits)

lemma updateTotals_keys [simp]:
  "map fst (updateTotals name f totals) = map fst totals"
  by (induction totals) (simp_all add: updateTotals_def)

lemma updateTotals_map_of:
  "map_of (updateTotals name f totals) k =
     (if k = name then map_option f (map_of totals name) else map_of totals k)"
  by (induction totals) (auto simp: updateTotals_def)

lemma updateTotals_wellKeyed:
  assumes "wellKeyed totals" and "\<And>t. bot (f t) = bot t"
  shows "wellKeyed (updateTotals name f totals)"
proof -
  have "distinct (map fst (updateTotals name f totals))"
    using assms(1) by (simp add: wellKeyed_def)
  moreover have "list_all (\<lambda>kt. bot (snd kt) = fst kt) (updateTotals name f totals)"
    using assms by (auto simp: wellKeyed_def list_all_iff updateTotals_def)
  ultimately show ?thesis by (simp add: wellKeyed_def)
qed

lemma updateTotals_pointsSum_absent:
  "name \<notin> set (map fst totals) \<Longrightarrow> pointsSum (updateTotals name f totals) = pointsSum totals"
  by (induction totals) (auto simp: updateTotals_def pointsSum_def)

lemma updateTotals_pointsSum:
  "distinct (map fst totals) \<Longrightarrow> name \<in> set (map fst totals) \<Longrightarrow>
   (\<And>t. points (f t) = points t + d) \<Longrightarrow>
   pointsSum (updateTotals name f totals) = pointsSum totals + d"
proof (induction totals)
  case Nil
  then show ?case by simp
next
  case (Cons kt totals)
  show ?case
  proof (cases "fst kt = name")
    case True
    then have "name \<notin> set (map fst totals)" using Cons.prems(1) by auto
    from updateTotals_pointsSum_absent [OF this, of f] True Cons.prems(3)
    show ?thesis by (simp add: updateTotals_def pointsSum_def)
  next
    case False
    then have "name \<in> set (map fst totals)" using Cons.prems(2) by auto
    from Cons.IH [OF _ this Cons.prems(3)] Cons.prems(1) False
    show ?thesis by (simp add: updateTotals_def pointsSum_def)
  qed
qed

lemma rowOf_ensureTotals [simp]: "rowOf (ensureTotals name totals) k = rowOf totals k"
  by (simp add: rowOf_def ensureTotals_map_of)

lemma rowOf_updateTotals:
  "name \<in> set (map fst totals) \<Longrightarrow>
   rowOf (updateTotals name f totals) k =
     (if k = name then f (rowOf totals k) else rowOf totals k)"
proof -
  assume "name \<in> set (map fst totals)"
  then obtain t where "map_of totals name = Some t"
    by (metis map_of_eq_None_iff not_Some_eq set_map)
  then show ?thesis
    by (simp add: rowOf_def updateTotals_map_of)
qed

lemma tally_keys:
  "ordinaryNames out \<Longrightarrow>
   set (map fst (tally totals out)) =
     insert (black (players out)) (insert (white (players out)) (set (map fst totals)))"
  by (simp add: tally_def Let_def ensureTotals_keys ordinaryNames_def del: set_map)

lemma tally_wellKeyed: "wellKeyed totals \<Longrightarrow> wellKeyed (tally totals out)"
  by (simp add: tally_def Let_def ensureTotals_wellKeyed updateTotals_wellKeyed
      addWin_def addLoss_def addDraw_def)

lemma rowOf_tally:
  assumes "ordinaryNames out"
  shows "rowOf (tally totals out) k =
     (if type out = WIN then
        (if winner out = Some (white (players out)) then
           (if k = black (players out) then addLoss else id)
             ((if k = white (players out) then addWin else id) (rowOf totals k))
         else
           (if k = white (players out) then addLoss else id)
             ((if k = black (players out) then addWin else id) (rowOf totals k)))
      else
        (if k = black (players out) then addDraw else id)
          ((if k = white (players out) then addDraw else id) (rowOf totals k)))"
proof -
  let ?w = "white (players out)" and ?b = "black (players out)"
  let ?t = "ensureTotals ?b (ensureTotals ?w totals)"
  have keys: "?w \<in> set (map fst ?t)" "?b \<in> set (map fst ?t)"
    using assms by (simp_all add: ensureTotals_keys ordinaryNames_def del: set_map)
  have keys': "?w \<in> set (map fst (updateTotals n f ?t))"
    "?b \<in> set (map fst (updateTotals n f ?t))" for n f
    using keys by simp_all
  show ?thesis
    by (simp add: tally_def Let_def rowOf_updateTotals keys keys' del: set_map)
qed

lemma wins_tally:
  "ordinaryNames out \<Longrightarrow> regularOutcome out \<Longrightarrow>
   wins (rowOf (tally totals out) k) =
     wins (rowOf totals k) + (if type out = WIN \<and> winner out = Some k then 1 else 0)"
  by (auto simp: rowOf_tally regularOutcome_def addWin_def addLoss_def addDraw_def)

lemma losses_tally:
  "ordinaryNames out \<Longrightarrow> regularOutcome out \<Longrightarrow>
   losses (rowOf (tally totals out) k) =
     losses (rowOf totals k) +
     (if type out = WIN \<and> winner out \<noteq> Some k \<and>
         (white (players out) = k \<or> black (players out) = k) then 1 else 0)"
  by (auto simp: rowOf_tally regularOutcome_def addWin_def addLoss_def addDraw_def)

lemma draws_tally:
  "ordinaryNames out \<Longrightarrow> regularOutcome out \<Longrightarrow>
   draws (rowOf (tally totals out) k) =
     draws (rowOf totals k) +
     (if type out \<noteq> WIN \<and> (white (players out) = k \<or> black (players out) = k)
      then 1 else 0)"
  by (auto simp: rowOf_tally regularOutcome_def addWin_def addLoss_def addDraw_def)

lemma wins_foldl_tally:
  "list_all ordinaryNames outcomes \<Longrightarrow> list_all regularOutcome outcomes \<Longrightarrow>
   wins (rowOf (foldl tally totals outcomes) k) = wins (rowOf totals k) + wonBy k outcomes"
  by (induction outcomes arbitrary: totals) (simp_all add: wins_tally wonBy_def)

lemma losses_foldl_tally:
  "list_all ordinaryNames outcomes \<Longrightarrow> list_all regularOutcome outcomes \<Longrightarrow>
   losses (rowOf (foldl tally totals outcomes) k) = losses (rowOf totals k) + lostBy k outcomes"
  by (induction outcomes arbitrary: totals) (simp_all add: losses_tally lostBy_def)

lemma draws_foldl_tally:
  "list_all ordinaryNames outcomes \<Longrightarrow> list_all regularOutcome outcomes \<Longrightarrow>
   draws (rowOf (foldl tally totals outcomes) k) = draws (rowOf totals k) + drawnBy k outcomes"
  by (induction outcomes arbitrary: totals) (simp_all add: draws_tally drawnBy_def)

lemma gamesWith_split:
  "gamesWith k outcomes = wonBy k outcomes + drawnBy k outcomes + lostBy k outcomes"
  if "list_all regularOutcome outcomes"
  using that
  by (induction outcomes)
    (auto simp: gamesWith_def wonBy_def drawnBy_def lostBy_def regularOutcome_def
      split: if_splits)

lemma worth_add:
  "worth t \<Longrightarrow> worth (addWin t)"
  "worth t \<Longrightarrow> worth (addLoss t)"
  "worth t \<Longrightarrow> worth (addDraw t)"
  by (simp_all add: worth_def addWin_def addLoss_def addDraw_def algebra_simps)

lemma worth_tally:
  "ordinaryNames out \<Longrightarrow> worth (rowOf totals k) \<Longrightarrow> worth (rowOf (tally totals out) k)"
  by (auto simp: rowOf_tally intro!: worth_add)

lemma worth_foldl_tally:
  "list_all ordinaryNames outcomes \<Longrightarrow> worth (rowOf totals k) \<Longrightarrow>
   worth (rowOf (foldl tally totals outcomes) k)"
  by (induction outcomes arbitrary: totals) (simp_all add: worth_tally)

lemma tally_pointsSum:
  assumes "wellKeyed totals" and "ordinaryNames out"
  shows "pointsSum (tally totals out) = pointsSum totals + 1"
proof -
  let ?w = "white (players out)" and ?b = "black (players out)"
  let ?t = "ensureTotals ?b (ensureTotals ?w totals)"
  have d: "distinct (map fst ?t)"
    using assms(1) ensureTotals_wellKeyed by (simp add: wellKeyed_def)
  have keys: "?w \<in> set (map fst ?t)" "?b \<in> set (map fst ?t)"
    using assms(2) by (simp_all add: ensureTotals_keys ordinaryNames_def del: set_map)
  have one: "pointsSum (updateTotals n g (updateTotals m f ?t)) = pointsSum ?t + (df + dg)"
    if "m \<in> set (map fst ?t)" "n \<in> set (map fst ?t)"
      "\<And>t. points (f t) = points t + df" "\<And>t. points (g t) = points t + dg"
    for m n f g df dg
  proof -
    have "pointsSum (updateTotals m f ?t) = pointsSum ?t + df"
      using d that(1,3) by (rule updateTotals_pointsSum)
    moreover have "pointsSum (updateTotals n g (updateTotals m f ?t)) =
        pointsSum (updateTotals m f ?t) + dg"
      using d that(2,4) by (intro updateTotals_pointsSum) simp_all
    ultimately show ?thesis by simp
  qed
  have base: "pointsSum ?t = pointsSum totals"
    by (simp add: ensureTotals_pointsSum)
  show ?thesis
    unfolding tally_def Let_def
    using one [OF keys(1) keys(2), of addWin POINTS_PER_WIN addLoss POINTS_PER_LOSS]
      one [OF keys(2) keys(1), of addWin POINTS_PER_WIN addLoss POINTS_PER_LOSS]
      one [OF keys(1) keys(2), of addDraw POINTS_PER_DRAW addDraw POINTS_PER_DRAW]
    by (simp add: base addWin_def addLoss_def addDraw_def POINTS_PER_WIN_def
        POINTS_PER_DRAW_def POINTS_PER_LOSS_def)
qed

lemma foldl_tally_wellKeyed: "wellKeyed totals \<Longrightarrow> wellKeyed (foldl tally totals outcomes)"
  by (induction outcomes arbitrary: totals) (simp_all add: tally_wellKeyed)

lemma foldl_tally_pointsSum:
  "wellKeyed totals \<Longrightarrow> list_all ordinaryNames outcomes \<Longrightarrow>
   pointsSum (foldl tally totals outcomes) = pointsSum totals + of_nat (length outcomes)"
  by (induction outcomes arbitrary: totals) (simp_all add: tally_wellKeyed tally_pointsSum)

lemma foldl_tally_keys:
  "list_all ordinaryNames outcomes \<Longrightarrow>
   set (map fst (foldl tally totals outcomes)) =
     set (map fst totals) \<union> (\<lambda>out. white (players out)) ` set outcomes \<union>
     (\<lambda>out. black (players out)) ` set outcomes"
proof (induction outcomes arbitrary: totals)
  case Nil
  show ?case by simp
next
  case (Cons out outcomes)
  then have "ordinaryNames out" "list_all ordinaryNames outcomes"
    by simp_all
  then show ?case
    unfolding foldl_Cons Cons.IH [OF \<open>list_all ordinaryNames outcomes\<close>] tally_keys [OF \<open>ordinaryNames out\<close>]
    by auto
qed

lemma wellKeyed_rows:
  assumes "wellKeyed totals" and "t \<in> set (map snd totals)"
  shows "rowOf totals (bot t) = t"
proof -
  obtain k where kt: "(k, t) \<in> set totals" using assms(2) by auto
  then have "bot t = k"
    using assms(1) by (auto simp: wellKeyed_def list_all_iff)
  moreover have "map_of totals k = Some t"
    using assms(1) kt by (simp add: wellKeyed_def)
  ultimately show ?thesis by (simp add: rowOf_def)
qed

lemma wellKeyed_bots: "wellKeyed totals \<Longrightarrow> map bot (map snd totals) = map fst totals"
  by (induction totals) (auto simp: wellKeyed_def)

lemma objectValues_mset: "mset (objectValues totals) = mset (map snd totals)"
proof -
  have "image_mset snd (filter_mset (\<lambda>kt. isArrayIndex (fst kt)) (mset totals)) +
      image_mset snd (filter_mset (\<lambda>kt. \<not> isArrayIndex (fst kt)) (mset totals)) =
      image_mset snd (mset totals)"
    by (metis image_mset_union multiset_partition)
  then show ?thesis
    by (simp add: objectValues_def)
qed

lemma objectValues_index_first:
  "objectValues [(''bob'', newTotals ''bob''), (''10'', newTotals ''10''), (''7'', newTotals ''7''),
                 (''07'', newTotals ''07'')] =
     [newTotals ''7'', newTotals ''10'', newTotals ''bob'', newTotals ''07'']"
  by (simp add: objectValues_def isArrayIndex_def indexOf_def)

text \<open>
  For bots that are not named as an inherited key the standings are as the claim C10 has
  them: one row per bot that plays, the points of all rows add up to the number of
  outcomes, and a row is worth 1 per win, 0.5 per draw and 0 per loss. When moreover every
  outcome is regular, a row holds the games its bot has won, drawn and lost, and
  wins + draws + losses is the number of outcomes in which the bot appears.
\<close>

lemma calculatePoints_ordinary_names:
  assumes names: "list_all ordinaryNames outcomes"
  shows "sum_list (map points (calculatePoints outcomes)) = of_nat (length outcomes)"
    and "distinct (map bot (calculatePoints outcomes))"
    and "set (map bot (calculatePoints outcomes)) =
      (\<lambda>out. white (players out)) ` set outcomes \<union> (\<lambda>out. black (players out)) ` set outcomes"
    and "list_all worth (calculatePoints outcomes)"
    and "list_all regularOutcome outcomes \<Longrightarrow>
      list_all (\<lambda>t. wins t = wonBy (bot t) outcomes \<and> draws t = drawnBy (bot t) outcomes \<and>
                    losses t = lostBy (bot t) outcomes \<and>
                    wins t + draws t + losses t = gamesWith (bot t) outcomes)
        (calculatePoints outcomes)"
proof -
  let ?totals = "foldl tally [] outcomes"
  let ?rows = "map snd ?totals"
  have wk: "wellKeyed ?totals"
    by (rule foldl_tally_wellKeyed) (simp add: wellKeyed_def)
  have perm: "mset (calculatePoints outcomes) = mset ?rows"
    by (simp add: calculatePoints_def objectValues_mset)
  have rows: "set (calculatePoints outcomes) = set ?rows"
    using perm by (rule mset_eq_setD)
  have "sum_list (map points (calculatePoints outcomes)) = sum_list (map points ?rows)"
    using perm by (metis mset_map sum_mset_sum_list)
  also have "\<dots> = pointsSum ?totals"
    by (simp add: pointsSum_def comp_def)
  also have "\<dots> = of_nat (length outcomes)"
    using foldl_tally_pointsSum [OF _ names, of "[]"] by (simp add: wellKeyed_def pointsSum_def)
  finally show "sum_list (map points (calculatePoints outcomes)) = of_nat (length outcomes)" .
  have bots: "mset (map bot (calculatePoints outcomes)) = mset (map fst ?totals)"
    using perm wellKeyed_bots [OF wk] by (metis mset_map)
  show "distinct (map bot (calculatePoints outcomes))"
    using bots wk by (metis mset_eq_imp_distinct_iff wellKeyed_def)
  show "set (map bot (calculatePoints outcomes)) =
      (\<lambda>out. white (players out)) ` set outcomes \<union> (\<lambda>out. black (players out)) ` set outcomes"
    using mset_eq_setD [OF bots] foldl_tally_keys [OF names, of "[]"] by simp
  have fresh: "wins (rowOf [] k) = 0" "draws (rowOf [] k) = 0" "losses (rowOf [] k) = 0"
    "worth (rowOf [] k)" for k
    by (simp_all add: rowOf_def newTotals_def worth_def)
  have row: "rowOf ?totals (bot t) = t" if "t \<in> set (calculatePoints outcomes)" for t
    using that rows wellKeyed_rows [OF wk] by simp
  have "worth t" if "t \<in> set (calculatePoints outcomes)" for t
    using worth_foldl_tally [OF names, of "[]" "bot t"] row [OF that] fresh by simp
  then show "list_all worth (calculatePoints outcomes)"
    by (simp add: list_all_iff)
  show "list_all (\<lambda>t. wins t = wonBy (bot t) outcomes \<and> draws t = drawnBy (bot t) outcomes \<and>
                    losses t = lostBy (bot t) outcomes \<and>
                    wins t + draws t + losses t = gamesWith (bot t) outcomes)
        (calculatePoints outcomes)"
    if regular: "list_all regularOutcome outcomes"
  proof -
    have "wins t = wonBy (bot t) outcomes \<and> draws t = drawnBy (bot t) outcomes \<and>
        losses t = lostBy (bot t) outcomes \<and>
        wins t + draws t + losses t = gamesWith (bot t) outcomes"
      if "t \<in> set (calculatePoints outcomes)" for t
    proof -
      have w: "wins t = wonBy (bot t) outcomes"
        using wins_foldl_tally [OF names regular, of "[]" "bot t"] row [OF that] fresh by simp
      have d: "draws t = drawnBy (bot t) outcomes"
        using draws_foldl_tally [OF names regular, of "[]" "bot t"] row [OF that] fresh by simp
      have l: "losses t = lostBy (bot t) outcomes"
        using losses_foldl_tally [OF names regular, of "[]" "bot t"] row [OF that] fresh by simp
      show ?thesis
        using w d l by (simp add: gamesWith_split [OF regular])
    qed
    then show ?thesis
      unfolding list_all_iff by blast
  qed
qed

text \<open>
  Claim C10, at a failing input. One game, won by a bot named \<open>constructor\<close> against
  \<open>bob\<close>: \<open>totals["constructor"]\<close> is the function every object inherits, so no row is made
  for the winner and its win and its point are not in the standings. The standings hold
  one row, for \<open>bob\<close>, and their points add up to 0 for one outcome.
\<close>

theorem calculatePoints_inherited_key:
  "calculatePoints [constructorWins] =
     [\<lparr>bot = ''bob'', wins = 0, draws = 0, losses = 1, points = 0\<rparr>] \<and>
   sum_list (map points (calculatePoints [constructorWins])) = 0 \<and>
   length [constructorWins] = 1 \<and>
   gamesWith ''constructor'' [constructorWins] = 1 \<and>
   ''constructor'' \<notin> set (map bot (calculatePoints [constructorWins]))"
proof -
  have rows: "calculatePoints [constructorWins] =
     [\<lparr>bot = ''bob'', wins = 0, draws = 0, losses = 1, points = 0\<rparr>]"
    by code_simp
  have games: "gamesWith ''constructor'' [constructorWins] = 1"
    by code_simp
  show ?thesis
    unfolding rows using games by simp
qed




end
